theory Spec2Isabelle
  imports Complex_Main "HOL-Library.Multiset"
begin

section \<open>Data model (src/types/index.ts)\<close>

text \<open>
  Identifiers and textual fields are strings, as in the TypeScript interfaces. Timestamps
  (\<open>created_at\<close>, \<open>updated_at\<close>, \<open>Date.now()\<close>) are milliseconds since the epoch, a
  natural number; the ISO-8601 rendering keeps their order. The field \<open>id\<close> is written
  \<open>id'\<close>. The optional \<open>metadata\<close> of a message is never read or written by the code
  embedded here and is left out.
\<close>

datatype role = user | assistant

record Conversation =
  id' :: string
  user_id :: string
  title :: string
  created_at :: nat
  updated_at :: nat

record Message =
  id' :: string
  conversation_id :: string
  content :: string
  role :: role
  created_at :: nat

record 'a ApiResponse =
  data :: 'a
  error :: "string option"
  success :: bool

text \<open>
  A thrown JavaScript value. The facade only asks whether it is \<open>instanceof Error\<close> and,
  if so, reads its \<open>message\<close>.
\<close>

datatype thrown = ErrorObject string | OtherValue

text \<open>\<open>error instanceof Error ? error.message : fallback\<close>\<close>

fun error_message :: "thrown \<Rightarrow> string \<Rightarrow> string" where
  "error_message (ErrorObject msg) fallback = msg"
| "error_message OtherValue fallback = fallback"

text \<open>The decimal digits of a number, as a template literal renders \<open>Date.now()\<close>.\<close>

fun decimal :: "nat \<Rightarrow> string" where
  "decimal n =
     (if n < 10 then [char_of (48 + n)]
      else decimal (n div 10) @ [char_of (48 + n mod 10)])"

declare decimal.simps [simp del]

section \<open>TTL cache (module ./cache, imported by src/lib/api.ts)\<close>

text \<open>
  The facade stores conversation lists and message pages in the one cache; \<open>cache.get<T>\<close>
  is an unchecked cast. The two kinds of payload are kept apart here.
\<close>

datatype payload = ConversationRows "Conversation list" | MessageRows "Message list"

record CacheEntry =
  entry_value :: payload
  expiry :: nat

type_synonym Cache = "string \<Rightarrow> CacheEntry option"

text \<open>Modelled from the spec: \<open>set(key, value, ttl)\<close> of the cache module, which is not
  among the sources; it stores the value with the absolute expiry now + ttl.\<close>

definition cache_set :: "string \<Rightarrow> payload \<Rightarrow> nat \<Rightarrow> nat \<Rightarrow> Cache \<Rightarrow> Cache" where
  "cache_set key v ttl now c = c(key \<mapsto> \<lparr>entry_value = v, expiry = now + ttl\<rparr>)"

text \<open>Modelled from the spec: \<open>get(key)\<close> of the cache module, which is not among the
  sources; it returns the value if present and not expired, and signals a miss otherwise
  (a read after the expiry is a miss).\<close>

definition cache_get :: "string \<Rightarrow> nat \<Rightarrow> Cache \<Rightarrow> payload option" where
  "cache_get key now c =
     (case c key of
        None \<Rightarrow> None
      | Some e \<Rightarrow> if now \<le> expiry e then Some (entry_value e) else None)"

text \<open>Modelled from the spec: \<open>delete(key)\<close> of the cache module, which is not among the
  sources; it removes the entry stored under exactly this key, unconditionally.\<close>

definition cache_delete :: "string \<Rightarrow> Cache \<Rightarrow> Cache" where
  "cache_delete key c = c(key := None)"

text \<open>
  \<open>cacheKeys\<close> belongs to the same module. Its two functions are parameters of the
  model: nothing below depends on the keys they build.
\<close>

record CacheKeys =
  conversations :: "string \<Rightarrow> string"
  messages :: "string \<Rightarrow> string"

text \<open>The key of a page: \<open>`${cacheKeys.messages(conversationId)}:${limit}:${offset}`\<close>.\<close>

definition page_key :: "CacheKeys \<Rightarrow> string \<Rightarrow> nat \<Rightarrow> nat \<Rightarrow> string" where
  "page_key keys conversationId limit offset =
     CacheKeys.messages keys conversationId @ '':'' @ decimal limit @ '':'' @ decimal offset"

section \<open>The external collaborators\<close>

text \<open>
  The backend data service and the completion endpoint are outside the repository. The
  facade depends on: the current user of the session, filtered, ordered and paginated
  select, insert returning the new row, update by id, and an HTTP POST to the completion
  endpoint. \<open>World\<close> holds the two tables, the session, the process-wide cache and what
  the environment decides: \<open>faults\<close> is the script of the coming data calls (the head is
  the outcome of the next call: \<open>None\<close> lets it succeed, \<open>Some e\<close> makes it return the
  error \<open>e\<close>; an empty script means success) and \<open>completion\<close> is the endpoint's answer
  to a request; \<open>randoms\<close> is the script of the coming \<open>Math.random()\<close> results.
  \<open>trace\<close> records what an operation did, in order.
\<close>

datatype fetch_result =
    FetchOk string        \<comment> \<open>2xx answer, with the \<open>response\<close> text of its JSON body\<close>
  | FetchStatus nat       \<comment> \<open>answer with \<open>ok\<close> false and this status\<close>
  | FetchThrows thrown    \<comment> \<open>\<open>fetch\<close> or \<open>json()\<close> rejects: network error, or abort at 30 s\<close>

datatype effect =
    QueueAdd              \<comment> \<open>a task was handed to \<open>requestQueue.add\<close>\<close>
  | AuthGetUser           \<comment> \<open>\<open>supabase.auth.getUser()\<close>\<close>
  | Select string         \<comment> \<open>select on the named relation\<close>
  | Insert string         \<comment> \<open>insert into the named relation\<close>
  | Update string         \<comment> \<open>update of the named relation\<close>
  | Fetch                 \<comment> \<open>POST to the completion endpoint\<close>
  | Sleep rat             \<comment> \<open>\<open>setTimeout\<close> awaited for this many milliseconds\<close>

record World =
  cacheKeys :: CacheKeys
  cache :: Cache
  session_user :: "string option"
  conversation_rows :: "Conversation list"
  message_rows :: "Message list"
  faults :: "thrown option list"
  completion :: "string \<Rightarrow> string \<Rightarrow> fetch_result"
  randoms :: "rat list"
  now :: nat
  trace :: "effect list"

definition next_fault :: "World \<Rightarrow> thrown option \<times> World" where
  "next_fault w = (case faults w of [] \<Rightarrow> (None, w) | f # fs \<Rightarrow> (f, w\<lparr>faults := fs\<rparr>))"

definition emit :: "effect \<Rightarrow> World \<Rightarrow> World" where
  "emit e w = w\<lparr>trace := trace w @ [e]\<rparr>"

text \<open>\<open>const { data: { user } } = await supabase.auth.getUser()\<close>\<close>

definition auth_getUser :: "World \<Rightarrow> string option \<times> World" where
  "auth_getUser w = (session_user w, emit AuthGetUser w)"

text \<open>\<open>from('conversations').insert([{ user_id, title }]).select().single()\<close>\<close>

definition insert_conversation ::
  "string \<Rightarrow> string \<Rightarrow> World \<Rightarrow> (thrown + Conversation) \<times> World" where
  "insert_conversation uid ttl w0 =
     (case next_fault (emit (Insert ''conversations'') w0) of
        (Some e, w) \<Rightarrow> (Inl e, w)
      | (None, w) \<Rightarrow>
          (let row = \<lparr>Conversation.id' = ''conv-'' @ decimal (length (conversation_rows w)),
                      user_id = uid, title = ttl,
                      created_at = now w, updated_at = now w\<rparr>
           in (Inr row, w\<lparr>conversation_rows := conversation_rows w @ [row]\<rparr>)))"

text \<open>\<open>from('conversations').select('*').eq('user_id', uid)
  .order('updated_at', { ascending: false }).limit(30)\<close>, then \<open>data || []\<close>\<close>

definition select_conversations ::
  "string \<Rightarrow> World \<Rightarrow> (thrown + Conversation list) \<times> World" where
  "select_conversations uid w0 =
     (case next_fault (emit (Select ''conversations'') w0) of
        (Some e, w) \<Rightarrow> (Inl e, w)
      | (None, w) \<Rightarrow>
          (Inr (take 30 (rev (sort_key Conversation.updated_at
                  (filter (\<lambda>c. user_id c = uid) (conversation_rows w))))), w))"

text \<open>\<open>from('messages').select('*').eq('conversation_id', conversationId)
  .order('created_at', { ascending: true }).range(offset, offset + limit - 1)\<close>,
  then \<open>data || []\<close>\<close>

definition page_rows :: "string \<Rightarrow> nat \<Rightarrow> nat \<Rightarrow> Message list \<Rightarrow> Message list" where
  "page_rows conversationId limit offset rows =
     take limit (drop offset (sort_key Message.created_at
       (filter (\<lambda>m. conversation_id m = conversationId) rows)))"

definition select_messages ::
  "string \<Rightarrow> nat \<Rightarrow> nat \<Rightarrow> World \<Rightarrow> (thrown + Message list) \<times> World" where
  "select_messages conversationId limit offset w0 =
     (case next_fault (emit (Select ''messages'') w0) of
        (Some e, w) \<Rightarrow> (Inl e, w)
      | (None, w) \<Rightarrow> (Inr (page_rows conversationId limit offset (message_rows w)), w))"

text \<open>\<open>from('messages').insert([{ conversation_id, content, role }]).select().single()\<close>\<close>

definition insert_message ::
  "string \<Rightarrow> string \<Rightarrow> role \<Rightarrow> World \<Rightarrow> (thrown + Message) \<times> World" where
  "insert_message conversationId text r w0 =
     (case next_fault (emit (Insert ''messages'') w0) of
        (Some e, w) \<Rightarrow> (Inl e, w)
      | (None, w) \<Rightarrow>
          (let row = \<lparr>Message.id' = ''msg-'' @ decimal (length (message_rows w)),
                      conversation_id = conversationId, content = text, role = r,
                      created_at = now w\<rparr>
           in (Inr row, w\<lparr>message_rows := message_rows w @ [row]\<rparr>)))"

text \<open>\<open>from('conversations').update({ updated_at: new Date().toISOString() })
  .eq('id', conversationId)\<close>; the result is not inspected.\<close>

definition update_conversation :: "string \<Rightarrow> World \<Rightarrow> World" where
  "update_conversation conversationId w0 =
     (case next_fault (emit (Update ''conversations'') w0) of
        (Some e, w) \<Rightarrow> w
      | (None, w) \<Rightarrow>
          w\<lparr>conversation_rows :=
              map (\<lambda>c. if Conversation.id' c = conversationId
                        then c\<lparr>updated_at := now w\<rparr> else c)
                  (conversation_rows w)\<rparr>)"

text \<open>\<open>fetch(`${VITE_SUPABASE_URL}/functions/v1/chat`, { method: 'POST', ... })\<close>\<close>

definition fetch_chat :: "string \<Rightarrow> string \<Rightarrow> World \<Rightarrow> fetch_result \<times> World" where
  "fetch_chat text conversationId w = (completion w text conversationId, emit Fetch w)"

section \<open>Request queue (class RequestQueue, src/lib/api.ts)\<close>

text \<open>
  The runtime is single-threaded: \<open>add\<close>, \<open>process\<close> and every callback run to their
  end without interruption, and the queue changes only at three kinds of event.
  \<^item> \<open>add(request)\<close> is called: the wrapper of the task is pushed and \<open>process\<close> runs.
  \<^item> The promise of a started task settles: its wrapper calls \<open>resolve\<close> or \<open>reject\<close> of
    the handle that \<open>add\<close> returned.
  \<^item> The \<open>finally\<close> callback of that wrapper runs: the counter is decremented and
    \<open>process\<close> runs again.
  When the promise of a started task settles, and with which outcome, is the
  environment's choice. A task is identified by the number of its \<open>add\<close> call, which
  also names its handle, and carries the outcome of its promise. Beside the four fields
  of the class, the state records which tasks are executing (started, promise not yet
  settled), whose \<open>finally\<close> callback is still due, which handles have settled and how,
  and the outcomes of all tasks submitted so far. \<open>currentRequests\<close> and
  \<open>maxConcurrent\<close> are JavaScript numbers, integers here. The tasks of the facade do
  not call \<open>add\<close> themselves while they start, and the model has no such task.
\<close>

record 'a Task =
  handle :: nat
  outcome :: "thrown + 'a"

record 'a RequestQueue =
  queue :: "'a Task list"
  processing :: bool
  maxConcurrent :: int
  currentRequests :: int
  executing :: "'a Task list"
  finishing :: "nat list"
  settled :: "(nat \<times> (thrown + 'a)) list"
  submitted :: "(thrown + 'a) list"

definition new_RequestQueue :: "'a RequestQueue" where
  "new_RequestQueue =
     \<lparr>queue = [], processing = False, maxConcurrent = 5, currentRequests = 0,
      executing = [], finishing = [], settled = [], submitted = []\<rparr>"

text \<open>
  The \<open>while\<close> loop of \<open>process\<close>: \<open>shift\<close> the next wrapper, count it and start it.
\<close>

function process_loop :: "'a RequestQueue \<Rightarrow> 'a RequestQueue" where
  "process_loop q =
     (if queue q \<noteq> [] \<and> currentRequests q < maxConcurrent q
      then process_loop
             (q\<lparr>queue := tl (queue q),
                currentRequests := currentRequests q + 1,
                executing := executing q @ [hd (queue q)]\<rparr>)
      else q)"
  by pat_completeness auto
termination
  by (relation "measure (\<lambda>q. length (queue q))") auto

declare process_loop.simps [simp del]

definition process :: "'a RequestQueue \<Rightarrow> 'a RequestQueue" where
  "process q =
     (if processing q \<or> currentRequests q \<ge> maxConcurrent q then q
      else (process_loop (q\<lparr>processing := True\<rparr>))\<lparr>processing := False\<rparr>)"

definition add :: "thrown + 'a \<Rightarrow> 'a RequestQueue \<Rightarrow> 'a RequestQueue" where
  "add request q =
     process (q\<lparr>queue := queue q @ [\<lparr>handle = length (submitted q), outcome = request\<rparr>],
               submitted := submitted q @ [request]\<rparr>)"

text \<open>
  The promise of the started task with handle \<open>h\<close> settles: \<open>resolve(result)\<close> or
  \<open>reject(error)\<close>. Nothing happens if no such task is executing.
\<close>

definition settle :: "nat \<Rightarrow> 'a RequestQueue \<Rightarrow> 'a RequestQueue" where
  "settle h q =
     (case find (\<lambda>t. handle t = h) (executing q) of
        None \<Rightarrow> q
      | Some t \<Rightarrow>
          q\<lparr>executing := remove1 t (executing q),
            finishing := finishing q @ [h],
            settled := settled q @ [(h, outcome t)]\<rparr>)"

text \<open>\<open>request().finally(() => { this.currentRequests--; this.process(); })\<close>\<close>

definition on_finally :: "nat \<Rightarrow> 'a RequestQueue \<Rightarrow> 'a RequestQueue" where
  "on_finally h q =
     (if h \<in> set (finishing q)
      then process (q\<lparr>finishing := remove1 h (finishing q),
                     currentRequests := currentRequests q - 1\<rparr>)
      else q)"

datatype 'a event = Add "thrown + 'a" | Settle nat | Finally nat

fun step :: "'a event \<Rightarrow> 'a RequestQueue \<Rightarrow> 'a RequestQueue" where
  "step (Add request) q = add request q"
| "step (Settle h) q = settle h q"
| "step (Finally h) q = on_finally h q"

text \<open>The queue after a sequence of events, from the queue as constructed.\<close>

definition run :: "'a event list \<Rightarrow> 'a RequestQueue" where
  "run events = fold step events new_RequestQueue"

text \<open>
  The tasks passed to \<open>add\<close> in a sequence of events, in the order of the calls: the
  \<open>n\<close>-th call (from 0) returns the handle \<open>n\<close>.
\<close>

fun added :: "'a event list \<Rightarrow> (thrown + 'a) list" where
  "added [] = []"
| "added (Add request # events) = request # added events"
| "added (Settle h # events) = added events"
| "added (Finally h # events) = added events"

text \<open>
  What is still to happen: a waiting task will be started, settle and run its callback,
  an executing task will settle and run its callback, a finishing one will run its
  callback.
\<close>

definition in_flight :: "'a RequestQueue \<Rightarrow> nat" where
  "in_flight q = 3 * length (queue q) + 2 * length (executing q) + length (finishing q)"

text \<open>
  The environment lets everything that was started come to its end, with no further
  \<open>add\<close>: the promise of the first executing task settles, and when none is
  executing, the first callback that is due runs.
\<close>

function drain :: "'a RequestQueue \<Rightarrow> 'a RequestQueue" where
  "drain q =
     (case executing q of
        t # ts \<Rightarrow> drain (settle (handle t) q)
      | [] \<Rightarrow> (case finishing q of
                 h # hs \<Rightarrow> drain (on_finally h q)
               | [] \<Rightarrow> q))"
  by pat_completeness auto
termination
proof (relation "measure in_flight")
  have loop: "in_flight (process_loop q) \<le> in_flight q" for q :: "'a RequestQueue"
  proof (induction q rule: process_loop.induct)
    case (1 q)
    show ?case
    proof (cases "queue q \<noteq> [] \<and> currentRequests q < maxConcurrent q")
      case True
      then have "in_flight (q\<lparr>queue := tl (queue q),
                   currentRequests := currentRequests q + 1,
                   executing := executing q @ [hd (queue q)]\<rparr>) \<le> in_flight q"
        by (cases "queue q") (simp_all add: in_flight_def)
      moreover from True have "process_loop q = process_loop (q\<lparr>queue := tl (queue q),
                   currentRequests := currentRequests q + 1,
                   executing := executing q @ [hd (queue q)]\<rparr>)"
        by (subst process_loop.simps) simp
      ultimately show ?thesis using "1.IH"[OF True] by simp
    next
      case False
      then have "process_loop q = q"
        by (subst process_loop.simps) auto
      then show ?thesis by simp
    qed
  qed
  have proc: "in_flight (process q) \<le> in_flight q" for q :: "'a RequestQueue"
    using loop[of "q\<lparr>processing := True\<rparr>"] by (simp add: process_def in_flight_def)
  show "wf (measure in_flight)"
    by simp
  show "(settle (handle t) q, q) \<in> measure in_flight"
    if "executing q = t # ts" for q :: "'a RequestQueue" and t ts
    using that by (simp add: settle_def in_flight_def)
  show "(on_finally h q, q) \<in> measure in_flight"
    if "executing q = []" and "finishing q = h # hs" for q :: "'a RequestQueue" and h hs
  proof -
    have "in_flight (q\<lparr>finishing := remove1 h (finishing q),
                       currentRequests := currentRequests q - 1\<rparr>) < in_flight q"
      using that by (simp add: in_flight_def)
    with proc[of "q\<lparr>finishing := remove1 h (finishing q),
                       currentRequests := currentRequests q - 1\<rparr>"] that
    show ?thesis by (simp add: on_finally_def)
  qed
qed

declare drain.simps [simp del]

section \<open>Retry helper and API facade (src/lib/api.ts)\<close>

text \<open>
  An asynchronous operation either returns a value or throws, and changes the world:
  \<open>World \<Rightarrow> (thrown + 'a) \<times> World\<close>. The timers of the performance monitor, started
  and stopped around every operation, only record durations and never throw; they are
  left out.
\<close>

definition math_random :: "World \<Rightarrow> rat \<times> World" where
  "math_random w = (case randoms w of [] \<Rightarrow> (0, w) | r # rs \<Rightarrow> (r, w\<lparr>randoms := rs\<rparr>))"

text \<open>
  \<open>const delay = baseDelay * Math.pow(1.5, attempt) + Math.random() * 200;
  await new Promise(resolve => setTimeout(resolve, delay))\<close>
\<close>

definition backoff :: "nat \<Rightarrow> nat \<Rightarrow> World \<Rightarrow> World" where
  "backoff baseDelay attempt w0 =
     (case math_random w0 of
        (r, w) \<Rightarrow>
          (let delay = of_nat baseDelay * (3 / 2) ^ attempt + r * 200
           in emit (Sleep delay) (w\<lparr>now := now w + nat \<lceil>delay\<rceil>\<rparr>)))"

text \<open>
  The loop of \<open>withRetry\<close>, from \<open>attempt\<close> on. \<open>lastError\<close> is \<open>None\<close> while the
  variable is unassigned; \<open>throw lastError!\<close> then throws \<open>undefined\<close>.
\<close>

function withRetry_loop ::
  "(World \<Rightarrow> (thrown + 'a) \<times> World) \<Rightarrow> nat \<Rightarrow> nat \<Rightarrow> nat \<Rightarrow> thrown option \<Rightarrow> World
     \<Rightarrow> (thrown + 'a) \<times> World" where
  "withRetry_loop operation maxRetries baseDelay attempt lastError w =
     (if attempt \<le> maxRetries then
        (case operation w of
           (Inr v, w1) \<Rightarrow> (Inr v, w1)
         | (Inl e, w1) \<Rightarrow>
             if attempt = maxRetries then (Inl e, w1)
             else withRetry_loop operation maxRetries baseDelay (Suc attempt) (Some e)
                    (backoff baseDelay attempt w1))
      else (Inl (case lastError of None \<Rightarrow> OtherValue | Some e \<Rightarrow> e), w))"
  by pat_completeness auto
termination
  by (relation "measure (\<lambda>(operation, maxRetries, baseDelay, attempt, lastError, w).
        Suc maxRetries - attempt)") auto

declare withRetry_loop.simps [simp del]

definition withRetry ::
  "(World \<Rightarrow> (thrown + 'a) \<times> World) \<Rightarrow> nat \<Rightarrow> nat \<Rightarrow> World \<Rightarrow> (thrown + 'a) \<times> World" where
  "withRetry operation maxRetries baseDelay w =
     withRetry_loop operation maxRetries baseDelay 0 None w"

text \<open>
  \<open>requestQueue.add(request)\<close> as one facade operation sees it: the task is handed to
  the queue and the handle settles with the task's own outcome (the section on the
  request queue above has the queue itself).
\<close>

definition requestQueue_add ::
  "(World \<Rightarrow> (thrown + 'a) \<times> World) \<Rightarrow> World \<Rightarrow> (thrown + 'a) \<times> World" where
  "requestQueue_add request w = request (emit QueueAdd w)"

subsection \<open>createConversation\<close>

definition createConversation_request :: "string \<Rightarrow> World \<Rightarrow> (thrown + Conversation) \<times> World" where
  "createConversation_request ttl w0 =
     (case auth_getUser w0 of
        (None, w1) \<Rightarrow> (Inl (ErrorObject ''User not authenticated''), w1)
      | (Some uid, w1) \<Rightarrow>
          (case insert_conversation uid ttl w1 of
             (Inl e, w2) \<Rightarrow> (Inl e, w2)
           | (Inr row, w2) \<Rightarrow>
               (Inr row,
                w2\<lparr>cache := cache_delete (CacheKeys.conversations (cacheKeys w2) uid) (cache w2)\<rparr>)))"

definition api_createConversation ::
  "string \<Rightarrow> World \<Rightarrow> Conversation option ApiResponse \<times> World" where
  "api_createConversation ttl w0 =
     (case requestQueue_add (createConversation_request ttl) w0 of
        (Inr result, w) \<Rightarrow> (\<lparr>data = Some result, error = None, success = True\<rparr>, w)
      | (Inl e, w) \<Rightarrow>
          (\<lparr>data = None, error = Some (error_message e ''Failed to create conversation''),
            success = False\<rparr>, w))"

subsection \<open>getConversations\<close>

text \<open>
  \<open>cache.get<Conversation[]>(key)\<close> and \<open>cache.get<Message[]>(key)\<close>: an entry of the
  other kind under the key counts as absent. (An array is truthy, also when it is empty,
  so \<open>if (cached)\<close> is a hit for every entry that \<open>get\<close> returns.)
\<close>

definition get_conversation_rows :: "string \<Rightarrow> nat \<Rightarrow> Cache \<Rightarrow> Conversation list option" where
  "get_conversation_rows key t c =
     (case cache_get key t c of Some (ConversationRows rows) \<Rightarrow> Some rows | _ \<Rightarrow> None)"

definition get_message_rows :: "string \<Rightarrow> nat \<Rightarrow> Cache \<Rightarrow> Message list option" where
  "get_message_rows key t c =
     (case cache_get key t c of Some (MessageRows rows) \<Rightarrow> Some rows | _ \<Rightarrow> None)"

definition api_getConversations :: "World \<Rightarrow> Conversation list ApiResponse \<times> World" where
  "api_getConversations w0 =
     (case auth_getUser w0 of
        (None, w1) \<Rightarrow>
          (\<lparr>data = [],
            error = Some (error_message (ErrorObject ''User not authenticated'')
                            ''Failed to fetch conversations''),
            success = False\<rparr>, w1)
      | (Some uid, w1) \<Rightarrow>
          (let cacheKey = CacheKeys.conversations (cacheKeys w1) uid in
           case get_conversation_rows cacheKey (now w1) (cache w1) of
             Some cached \<Rightarrow> (\<lparr>data = cached, error = None, success = True\<rparr>, w1)
           | None \<Rightarrow>
               (case requestQueue_add (select_conversations uid) w1 of
                  (Inl e, w) \<Rightarrow>
                    (\<lparr>data = [], error = Some (error_message e ''Failed to fetch conversations''),
                      success = False\<rparr>, w)
                | (Inr result, w) \<Rightarrow>
                    (\<lparr>data = result, error = None, success = True\<rparr>,
                     w\<lparr>cache := cache_set cacheKey (ConversationRows result) (3 * 60 * 1000)
                                  (now w) (cache w)\<rparr>))))"

subsection \<open>getMessages\<close>

definition api_getMessages ::
  "string \<Rightarrow> nat \<Rightarrow> nat \<Rightarrow> World \<Rightarrow> Message list ApiResponse \<times> World" where
  "api_getMessages conversationId limit offset w0 =
     (let cacheKey = page_key (cacheKeys w0) conversationId limit offset in
      case get_message_rows cacheKey (now w0) (cache w0) of
        Some cached \<Rightarrow> (\<lparr>data = cached, error = None, success = True\<rparr>, w0)
      | None \<Rightarrow>
          (case requestQueue_add (select_messages conversationId limit offset) w0 of
             (Inl e, w) \<Rightarrow>
               (\<lparr>data = [], error = Some (error_message e ''Failed to fetch messages''),
                 success = False\<rparr>, w)
           | (Inr result, w) \<Rightarrow>
               (\<lparr>data = result, error = None, success = True\<rparr>,
                w\<lparr>cache := cache_set cacheKey (MessageRows result) (60 * 1000)
                             (now w) (cache w)\<rparr>)))"

subsection \<open>sendMessage\<close>

text \<open>
  The update of the conversation's timestamp is started and not awaited; its \<open>then\<close>
  callback deletes the cache entry. The model runs both before the operation returns,
  the schedule under which the deletion comes earliest.
\<close>

definition sendMessage_request :: "string \<Rightarrow> string \<Rightarrow> World \<Rightarrow> (thrown + Message) \<times> World" where
  "sendMessage_request conversationId text w0 =
     (case insert_message conversationId text user w0 of
        (Inl userError, w1) \<Rightarrow> (Inl userError, w1)
      | (Inr userMessage, w1) \<Rightarrow>
          (case fetch_chat text conversationId w1 of
             (FetchThrows e, w2) \<Rightarrow> (Inl e, w2)
           | (FetchStatus status, w2) \<Rightarrow>
               (Inl (ErrorObject (''AI service error: '' @ decimal status)), w2)
           | (FetchOk response, w2) \<Rightarrow>
               (case insert_message conversationId response assistant w2 of
                  (Inl aiError, w3) \<Rightarrow> (Inl aiError, w3)
                | (Inr aiMessage, w3) \<Rightarrow>
                    (let w4 = update_conversation conversationId w3
                     in (Inr aiMessage,
                         w4\<lparr>cache := cache_delete
                               (CacheKeys.messages (cacheKeys w4) conversationId) (cache w4)\<rparr>)))))"

definition api_sendMessage ::
  "string \<Rightarrow> string \<Rightarrow> World \<Rightarrow> Message option ApiResponse \<times> World" where
  "api_sendMessage conversationId text w0 =
     (case requestQueue_add (sendMessage_request conversationId text) w0 of
        (Inr result, w) \<Rightarrow> (\<lparr>data = Some result, error = None, success = True\<rparr>, w)
      | (Inl e, w) \<Rightarrow>
          (\<lparr>data = None, error = Some (error_message e ''Failed to send message''),
            success = False\<rparr>, w))"


section \<open>Client state store\<close>

text \<open>
  The source holds the chat store twice. The two copies differ only in what
  \<open>sendMessage\<close> does after a successful facade call (the first replaces or keeps the
  optimistic message in place, the second loads the messages again) and in the test
  \<open>success && data\<close> against \<open>success\<close>. The first copy is embedded here; what the
  store does when the facade call fails is the same in both.
\<close>

record ExtendedChatState =
  conversations :: "Conversation list"
  currentConversation :: "Conversation option"
  messages :: "Message list"
  isLoading :: bool
  isTyping :: bool
  error :: "string option"
  hasMoreMessages :: bool
  messageOffset :: nat
  optimisticMessages :: "Message list"

definition initialState :: ExtendedChatState where
  "initialState =
     \<lparr>conversations = [], currentConversation = None, messages = [], isLoading = False,
      isTyping = False, error = None, hasMoreMessages = False, messageOffset = 0,
      optimisticMessages = []\<rparr>"

text \<open>
  An asynchronous action runs to its \<open>await\<close>, lets other actions run while the facade
  call is in flight, and resumes with the call's result. Each action is therefore two
  functions: \<open>_start\<close> is the part before the \<open>await\<close>, \<open>_done\<close> the part after it,
  applied to the state the store has then. What \<open>await\<close> yields is \<open>Inr\<close> of the
  facade's response, or \<open>Inl\<close> of a thrown value (the \<open>catch\<close> branch).
\<close>

subsection \<open>loadMessages\<close>

definition loadMessages_start :: "ExtendedChatState \<Rightarrow> ExtendedChatState" where
  "loadMessages_start s = s\<lparr>isLoading := True, error := None, messageOffset := 0\<rparr>"

definition loadMessages_done ::
  "thrown + Message list ApiResponse \<Rightarrow> ExtendedChatState \<Rightarrow> ExtendedChatState" where
  "loadMessages_done r s =
     (case r of
        Inr resp \<Rightarrow>
          if success resp
          then s\<lparr>messages := data resp, messageOffset := length (data resp),
                 hasMoreMessages := (length (data resp) = 50)\<rparr>
          else s\<lparr>error := ApiResponse.error resp\<rparr>
      | Inl e \<Rightarrow> s\<lparr>error := Some ''Failed to load messages''\<rparr>)
     \<lparr>isLoading := False\<rparr>"

text \<open>The whole action when nothing else runs in between.\<close>

definition loadMessages ::
  "string \<Rightarrow> ExtendedChatState \<times> World \<Rightarrow> ExtendedChatState \<times> World" where
  "loadMessages conversationId sw =
     (case sw of (s, w) \<Rightarrow>
        (case api_getMessages conversationId 50 0 w of
           (resp, w') \<Rightarrow> (loadMessages_done (Inr resp) (loadMessages_start s), w')))"

subsection \<open>setCurrentConversation\<close>

text \<open>
  Synchronous: it resets the message state and, for a conversation, calls
  \<open>loadMessages\<close>, which runs to its \<open>await\<close>. The result names the request that is
  now in flight, if any.
\<close>

definition setCurrentConversation ::
  "Conversation option \<Rightarrow> ExtendedChatState \<Rightarrow> ExtendedChatState \<times> string option" where
  "setCurrentConversation conversation s =
     (let s1 = s\<lparr>currentConversation := conversation, messages := [], messageOffset := 0,
                 hasMoreMessages := False, optimisticMessages := []\<rparr>
      in case conversation of
           None \<Rightarrow> (s1, None)
         | Some c \<Rightarrow> (loadMessages_start s1, Some (Conversation.id' c)))"

subsection \<open>loadMoreMessages\<close>

text \<open>
  \<open>const { messageOffset, messages, isLoading } = get(); if (isLoading) return;\<close>
  The offset and the list read here are the ones used after the \<open>await\<close>.
\<close>

definition loadMoreMessages_start ::
  "ExtendedChatState \<Rightarrow> ExtendedChatState \<times> (nat \<times> Message list) option" where
  "loadMoreMessages_start s =
     (if isLoading s then (s, None)
      else (s\<lparr>isLoading := True\<rparr>, Some (messageOffset s, messages s)))"

definition loadMoreMessages_done ::
  "nat \<times> Message list \<Rightarrow> thrown + Message list ApiResponse \<Rightarrow> ExtendedChatState
     \<Rightarrow> ExtendedChatState" where
  "loadMoreMessages_done captured r s =
     (case captured of (offset0, messages0) \<Rightarrow>
        (case r of
           Inr resp \<Rightarrow>
             if success resp
             then s\<lparr>messages := data resp @ messages0,
                    messageOffset := offset0 + length (data resp),
                    hasMoreMessages := (length (data resp) = 50)\<rparr>
             else s\<lparr>error := ApiResponse.error resp\<rparr>
         | Inl e \<Rightarrow> s\<lparr>error := Some ''Failed to load more messages''\<rparr>)
        \<lparr>isLoading := False\<rparr>)"

definition loadMoreMessages ::
  "string \<Rightarrow> ExtendedChatState \<times> World \<Rightarrow> ExtendedChatState \<times> World" where
  "loadMoreMessages conversationId sw =
     (case sw of (s, w) \<Rightarrow>
        (case loadMoreMessages_start s of
           (s1, None) \<Rightarrow> (s1, w)
         | (s1, Some captured) \<Rightarrow>
             (case api_getMessages conversationId 50 (fst captured) w of
                (resp, w') \<Rightarrow> (loadMoreMessages_done captured (Inr resp) s1, w'))))"

subsection \<open>sendMessage\<close>

text \<open>
  \<open>tempUserMessage\<close>: the source reads the clock twice, for the id (\<open>Date.now()\<close>) and
  for \<open>created_at\<close> (\<open>new Date()\<close>).
\<close>

definition temp_id :: "nat \<Rightarrow> string" where
  "temp_id date_now = ''temp-user-'' @ decimal date_now"

definition tempUserMessage :: "nat \<Rightarrow> nat \<Rightarrow> string \<Rightarrow> string \<Rightarrow> Message" where
  "tempUserMessage date_now new_date conversationId text =
     \<lparr>Message.id' = temp_id date_now, conversation_id = conversationId,
      content = text, role = user, created_at = new_date\<rparr>"

definition sendMessage_start ::
  "nat \<Rightarrow> nat \<Rightarrow> string \<Rightarrow> string \<Rightarrow> ExtendedChatState \<Rightarrow> ExtendedChatState" where
  "sendMessage_start date_now new_date conversationId text s =
     (let s1 = s\<lparr>isTyping := True, error := None\<rparr>;
          tmp = tempUserMessage date_now new_date conversationId text
      in s1\<lparr>messages := messages s1 @ [tmp],
             optimisticMessages := optimisticMessages s1 @ [tmp]\<rparr>)"

text \<open>
  The \<open>data\<close> of the response as the store inspects it: falsy, one message, or an array
  of the persisted user message and the assistant's reply.
\<close>

datatype send_data = NoData | OneMessage Message | BothMessages Message Message

definition remove_id :: "string \<Rightarrow> Message list \<Rightarrow> Message list" where
  "remove_id tid ms = filter (\<lambda>msg. Message.id' msg \<noteq> tid) ms"

definition sendMessage_done ::
  "Message \<Rightarrow> thrown + send_data ApiResponse \<Rightarrow> ExtendedChatState \<Rightarrow> ExtendedChatState" where
  "sendMessage_done tmp r s =
     (case r of
        Inr resp \<Rightarrow>
          (case (success resp, data resp) of
             (True, BothMessages userMessage aiMessage) \<Rightarrow>
               s\<lparr>messages := remove_id (Message.id' tmp) (messages s) @ [userMessage, aiMessage],
                 optimisticMessages := remove_id (Message.id' tmp) (optimisticMessages s)\<rparr>
           | (True, OneMessage aiMessage) \<Rightarrow>
               s\<lparr>messages := messages s @ [aiMessage],
                 optimisticMessages := remove_id (Message.id' tmp) (optimisticMessages s)\<rparr>
           | _ \<Rightarrow>
               (let s1 = s\<lparr>error := ApiResponse.error resp\<rparr>
                in s1\<lparr>messages := remove_id (Message.id' tmp) (messages s1),
                       optimisticMessages := remove_id (Message.id' tmp) (optimisticMessages s1)\<rparr>))
      | Inl e \<Rightarrow>
          (let s1 = s\<lparr>error := Some ''Failed to send message''\<rparr>
           in s1\<lparr>messages := remove_id (Message.id' tmp) (messages s1),
                  optimisticMessages := remove_id (Message.id' tmp) (optimisticMessages s1)\<rparr>))
     \<lparr>isTyping := False\<rparr>"

text \<open>What the facade's \<open>sendMessage\<close> hands to the store: \<open>null\<close> or the one message.\<close>

definition facade_response :: "Message option ApiResponse \<Rightarrow> send_data ApiResponse" where
  "facade_response resp =
     \<lparr>data = (case data resp of None \<Rightarrow> NoData | Some m \<Rightarrow> OneMessage m),
      error = ApiResponse.error resp, success = success resp\<rparr>"

definition sendMessage ::
  "nat \<Rightarrow> nat \<Rightarrow> string \<Rightarrow> string \<Rightarrow> ExtendedChatState \<times> World \<Rightarrow> ExtendedChatState \<times> World" where
  "sendMessage date_now new_date conversationId text sw =
     (case sw of (s, w) \<Rightarrow>
        (case api_sendMessage conversationId text w of
           (resp, w') \<Rightarrow>
             (sendMessage_done (tempUserMessage date_now new_date conversationId text)
                (Inr (facade_response resp))
                (sendMessage_start date_now new_date conversationId text s), w')))"


section \<open>A concrete world for examples\<close>

definition example_keys :: CacheKeys where
  "example_keys =
     \<lparr>CacheKeys.conversations = (\<lambda>uid. ''conversations:'' @ uid),
      CacheKeys.messages = (\<lambda>conversationId. ''messages:'' @ conversationId)\<rparr>"

definition example_world :: World where
  "example_world =
     \<lparr>cacheKeys = example_keys, cache = Map.empty, session_user = Some ''u1'',
      conversation_rows = [], message_rows = [], faults = [],
      completion = (\<lambda>text conversationId. FetchOk ''Hi''), randoms = [], now = 0, trace = []\<rparr>"

text \<open>
  The world after the first page of the empty conversation \<open>c1\<close> was loaded and a
  message was then sent to it with success.
\<close>

definition stale_world :: World where
  "stale_world =
     snd (api_sendMessage ''c1'' ''Hello'' (snd (api_getMessages ''c1'' 50 0 example_world)))"

text \<open>Two conversations with one message each.\<close>

definition conversation_A :: Conversation where
  "conversation_A = \<lparr>Conversation.id' = ''A'', user_id = ''u1'', title = ''first'',
                      Conversation.created_at = 1, updated_at = 1\<rparr>"

definition conversation_B :: Conversation where
  "conversation_B = \<lparr>Conversation.id' = ''B'', user_id = ''u1'', title = ''second'',
                      Conversation.created_at = 2, updated_at = 2\<rparr>"

definition message_A :: Message where
  "message_A = \<lparr>Message.id' = ''msg-0'', conversation_id = ''A'', content = ''in A'',
                 role = user, Message.created_at = 3\<rparr>"

definition message_B :: Message where
  "message_B = \<lparr>Message.id' = ''msg-1'', conversation_id = ''B'', content = ''in B'',
                 role = user, Message.created_at = 4\<rparr>"

definition two_conversations :: World where
  "two_conversations =
     example_world\<lparr>conversation_rows := [conversation_A, conversation_B],
                    message_rows := [message_A, message_B]\<rparr>"


text \<open>A conversation \<open>c1\<close> of 51 messages, created at the times 0 to 50.\<close>

definition history_message :: "nat \<Rightarrow> Message" where
  "history_message i =
     \<lparr>Message.id' = ''msg-'' @ decimal i, conversation_id = ''c1'', content = ''m'',
      role = user, Message.created_at = i\<rparr>"

definition history :: "nat \<Rightarrow> Message list" where
  "history n = map history_message [0..<n]"

definition long_conversation :: World where
  "long_conversation = example_world\<lparr>message_rows := history 51\<rparr>"

text \<open>The completion endpoint answers 500; the call to it is aborted at the timeout.\<close>

definition outage_world :: World where
  "outage_world = example_world\<lparr>completion := (\<lambda>text conversationId. FetchStatus 500)\<rparr>"

definition timeout_world :: World where
  "timeout_world =
     example_world\<lparr>completion :=
       (\<lambda>text conversationId. FetchThrows (ErrorObject ''The operation was aborted.''))\<rparr>"

text \<open>
  The next data call fails; the one after it would succeed. The data client returns its
  error as a plain object, which is not an \<open>Error\<close> instance.
\<close>

definition flaky_world :: World where
  "flaky_world = example_world\<lparr>faults := [Some OtherValue]\<rparr>"

text \<open>
  The insert of the user's message succeeds and the insert of the reply fails; both
  inserts succeed and the update of the conversation fails.
\<close>

definition reply_insert_fails_world :: World where
  "reply_insert_fails_world = example_world\<lparr>faults := [None, Some OtherValue]\<rparr>"

definition update_fails_world :: World where
  "update_fails_world = example_world\<lparr>faults := [None, None, Some OtherValue]\<rparr>"


text \<open>Nobody is signed in.\<close>

definition anonymous_world :: World where
  "anonymous_world = example_world\<lparr>session_user := None\<rparr>"

text \<open>
  The row that the backend stores for the user's message of \<open>sendMessage\<close> on the world
  \<open>w\<close>, when the insert succeeds.
\<close>

definition persisted_user_message :: "string \<Rightarrow> string \<Rightarrow> World \<Rightarrow> Message" where
  "persisted_user_message conversationId text w =
     \<lparr>Message.id' = ''msg-'' @ decimal (length (message_rows w)),
      conversation_id = conversationId, content = text, role = user,
      Message.created_at = now w\<rparr>"

text \<open>Seven requests submitted in a row, the third of which will fail.\<close>

definition seven_requests :: "nat event list" where
  "seven_requests =
     [Add (Inr 10), Add (Inr 11), Add (Inl OtherValue), Add (Inr 13), Add (Inr 14),
      Add (Inr 15), Add (Inr 16)]"

text \<open>One request that is submitted, settles and runs its callback.\<close>

definition one_request :: "nat event list" where
  "one_request = [Add (Inr 10), Settle 0, Finally 0]"

text \<open>
  What holds of the queue between events: the counter counts the tasks that were started
  and whose callback has not run, it is at most 5, every handle submitted so far
  belongs to exactly one task that is waiting, executing or settled, and each task
  carries the outcome submitted under its handle.
\<close>

definition consistent :: "'a RequestQueue \<Rightarrow> bool" where
  "consistent q \<longleftrightarrow>
     maxConcurrent q = 5
     \<and> currentRequests q = int (length (executing q) + length (finishing q))
     \<and> currentRequests q \<le> 5
     \<and> mset (map handle (queue q)) + mset (map handle (executing q)) + mset (map fst (settled q))
         = mset [0..<length (submitted q)]
     \<and> (\<forall>t \<in> set (queue q) \<union> set (executing q). outcome t = submitted q ! handle t)
     \<and> (\<forall>(h, r) \<in> set (settled q). r = submitted q ! h)"

text \<open>No call of \<open>process\<close> is active, and no task waits while a slot is free.\<close>

definition idle :: "'a RequestQueue \<Rightarrow> bool" where
  "idle q \<longleftrightarrow> \<not> processing q \<and> (queue q = [] \<or> currentRequests q \<ge> maxConcurrent q)"

text \<open>The store while a first send, started at the clock reading 1000, is in flight.\<close>

definition first_send_in_flight :: ExtendedChatState where
  "first_send_in_flight = sendMessage_start 1000 1000 ''c1'' ''first'' initialState"


section \<open>Properties of the store's optimistic send\<close>

lemma remove_id_fresh: "tid \<notin> Message.id' ` set ms \<Longrightarrow> remove_id tid ms = ms"
  by (induction ms) (auto simp: remove_id_def)

lemma remove_id_append: "remove_id tid (xs @ ys) = remove_id tid xs @ remove_id tid ys"
  by (simp add: remove_id_def)

lemma remove_id_simps:
  "remove_id tid [] = []"
  "remove_id tid (m # ms) =
     (if Message.id' m = tid then remove_id tid ms else m # remove_id tid ms)"
  by (simp_all add: remove_id_def)

lemma id_tempUserMessage: "Message.id' (tempUserMessage n nd c t) = temp_id n"
  by (simp add: tempUserMessage_def)

lemma not_in_remove_id: "Message.id' m = tid \<Longrightarrow> m \<notin> set (remove_id tid ms)"
  by (auto simp: remove_id_def)

lemma api_sendMessage_shape:
  "success (fst (api_sendMessage c t w)) \<and> ApiResponse.error (fst (api_sendMessage c t w)) = None
     \<and> data (fst (api_sendMessage c t w)) \<noteq> None
   \<or> \<not> success (fst (api_sendMessage c t w))
     \<and> (\<exists>msg. ApiResponse.error (fst (api_sendMessage c t w)) = Some msg)
     \<and> data (fst (api_sendMessage c t w)) = None"
  by (simp add: api_sendMessage_def split: prod.splits sum.splits)

lemma sendMessage_done_failure:
  assumes "r = Inl e \<or> (\<exists>resp. r = Inr resp \<and> \<not> success resp)"
  shows "messages (sendMessage_done tmp r s) = remove_id (Message.id' tmp) (messages s)"
    and "optimisticMessages (sendMessage_done tmp r s)
           = remove_id (Message.id' tmp) (optimisticMessages s)"
    and "ExtendedChatState.error (sendMessage_done tmp r s) =
           (case r of Inl e \<Rightarrow> Some ''Failed to send message''
                    | Inr resp \<Rightarrow> ApiResponse.error resp)"
    and "\<not> isTyping (sendMessage_done tmp r s)"
  using assms by (auto simp: sendMessage_done_def Let_def split: send_data.splits)

text \<open>
  The facade hands the store \<open>null\<close> or one message, never an array.
\<close>

lemma facade_response_never_array:
  "data (facade_response resp) \<noteq> BothMessages um am"
  by (simp add: facade_response_def split: option.splits)

text \<open>
  C10, as amended. The temporary id of an optimistic message is \<open>temp-user-\<close> followed
  by the clock reading alone. Two sends started on the same reading \<open>date_now\<close>,
  whatever their conversations and contents, give two optimistic messages with the
  same id, both appended to \<open>messages\<close> and \<open>optimisticMessages\<close>. When one of them
  then completes, the filter by that id drops both entries from every list it is
  applied to. The rollback, after a failed response and in the \<open>catch\<close> branch, filters
  both lists: both entries leave \<open>messages\<close> and \<open>optimisticMessages\<close>. The
  reconciliation with a single message, the only one that a response of this facade
  sets off, filters \<open>optimisticMessages\<close> alone: both entries leave
  \<open>optimisticMessages\<close> and both stay in \<open>messages\<close>, followed by the reply. The
  reconciliation with an array filters both lists. What is left of each filtered list
  is the list from before the two sends, without any older entry of that id.
\<close>

theorem same_millisecond_temp_ids_collide:
  "let tid = temp_id date_now;
       t1 = tempUserMessage date_now nd1 c1 text1;
       t2 = tempUserMessage date_now nd2 c2 text2;
       s2 = sendMessage_start date_now nd2 c2 text2 (sendMessage_start date_now nd1 c1 text1 s);
       rolled_back = sendMessage_done t2 (Inr \<lparr>data = d, error = err, success = False\<rparr>) s2;
       caught = sendMessage_done t2 (Inl e) s2;
       replaced = sendMessage_done t2
                    (Inr \<lparr>data = BothMessages um am, error = err, success = True\<rparr>) s2;
       appended = sendMessage_done t2
                    (Inr \<lparr>data = OneMessage am, error = err, success = True\<rparr>) s2
   in Message.id' t1 = tid \<and> Message.id' t2 = tid
    \<and> messages s2 = messages s @ [t1, t2]
    \<and> optimisticMessages s2 = optimisticMessages s @ [t1, t2]
    \<and> messages rolled_back = remove_id tid (messages s)
    \<and> optimisticMessages rolled_back = remove_id tid (optimisticMessages s)
    \<and> messages caught = remove_id tid (messages s)
    \<and> optimisticMessages caught = remove_id tid (optimisticMessages s)
    \<and> messages replaced = remove_id tid (messages s) @ [um, am]
    \<and> optimisticMessages replaced = remove_id tid (optimisticMessages s)
    \<and> messages appended = messages s @ [t1, t2, am]
    \<and> optimisticMessages appended = remove_id tid (optimisticMessages s)
    \<and> t1 \<notin> set (messages rolled_back) \<and> t1 \<notin> set (optimisticMessages rolled_back)
    \<and> t1 \<notin> set (messages caught) \<and> t1 \<notin> set (optimisticMessages caught)
    \<and> t1 \<notin> set (optimisticMessages replaced) \<and> t1 \<notin> set (optimisticMessages appended)
    \<and> t1 \<in> set (messages appended) \<and> t2 \<in> set (messages appended)
    \<and> data (facade_response (fst (api_sendMessage c2 text2 w))) \<noteq> BothMessages um am"
  by (simp add: Let_def sendMessage_start_def sendMessage_done_def remove_id_append
        id_tempUserMessage not_in_remove_id remove_id_simps facade_response_never_array
        split: send_data.splits)

text \<open>
  C10 as stated fails for the reconciliation: a first send is in flight, a second one
  starts on the same clock reading and its facade call succeeds. The store then holds
  both optimistic messages, with the same id, before the reply; only
  \<open>optimisticMessages\<close> is empty.
\<close>

theorem reconciliation_keeps_both_counterexample:
  "success (fst (api_sendMessage ''c1'' ''second'' example_world))
   \<and> messages (fst (sendMessage 1000 1000 ''c1'' ''second''
        (first_send_in_flight, example_world)))
     = [tempUserMessage 1000 1000 ''c1'' ''first'', tempUserMessage 1000 1000 ''c1'' ''second'',
        \<lparr>Message.id' = ''msg-1'', conversation_id = ''c1'', content = ''Hi'',
         role = assistant, Message.created_at = 0\<rparr>]
   \<and> map Message.id' (messages (fst (sendMessage 1000 1000 ''c1'' ''second''
        (first_send_in_flight, example_world))))
     = [temp_id 1000, temp_id 1000, ''msg-1'']
   \<and> optimisticMessages (fst (sendMessage 1000 1000 ''c1'' ''second''
        (first_send_in_flight, example_world))) = []"
proof -
  have d: "decimal 0 = ''0''" "decimal (Suc 0) = ''1''"
    by code_simp+
  show ?thesis
    by (simp add: Let_def sendMessage_def api_sendMessage_def requestQueue_add_def
        sendMessage_request_def insert_message_def update_conversation_def fetch_chat_def
        next_fault_def emit_def example_world_def facade_response_def sendMessage_done_def
        sendMessage_start_def first_send_in_flight_def initialState_def remove_id_simps
        id_tempUserMessage d)
qed

text \<open>
  What the rollback does in general. For every store state, after a send whose facade
  call throws or returns with \<open>success\<close> false, the optimistic entry is in neither
  list, an error string is recorded and the typing flag is cleared. The two lists are
  those from before the send when no entry of them carried the temporary id of the
  send.
\<close>

lemma sendMessage_rollback_general:
  "(let s' = sendMessage_done (tempUserMessage date_now new_date conversationId text) (Inl e)
               (sendMessage_start date_now new_date conversationId text s)
    in messages s' = remove_id (temp_id date_now) (messages s)
     \<and> optimisticMessages s' = remove_id (temp_id date_now) (optimisticMessages s)
     \<and> tempUserMessage date_now new_date conversationId text \<notin> set (messages s')
     \<and> tempUserMessage date_now new_date conversationId text \<notin> set (optimisticMessages s')
     \<and> ExtendedChatState.error s' = Some ''Failed to send message'' \<and> \<not> isTyping s')
   \<and> (\<not> success (fst (api_sendMessage conversationId text w)) \<longrightarrow>
       (let s' = fst (sendMessage date_now new_date conversationId text (s, w))
        in messages s' = remove_id (temp_id date_now) (messages s)
         \<and> optimisticMessages s' = remove_id (temp_id date_now) (optimisticMessages s)
         \<and> tempUserMessage date_now new_date conversationId text \<notin> set (messages s')
         \<and> tempUserMessage date_now new_date conversationId text \<notin> set (optimisticMessages s')
         \<and> (\<exists>msg. ExtendedChatState.error s' = Some msg) \<and> \<not> isTyping s'))"
proof -
  let ?tmp = "tempUserMessage date_now new_date conversationId text"
  let ?s1 = "sendMessage_start date_now new_date conversationId text s"
  have m1: "remove_id (Message.id' ?tmp) (messages ?s1) = remove_id (temp_id date_now) (messages s)"
    by (simp add: sendMessage_start_def Let_def remove_id_append remove_id_simps
          id_tempUserMessage)
  have o1: "remove_id (Message.id' ?tmp) (optimisticMessages ?s1)
              = remove_id (temp_id date_now) (optimisticMessages s)"
    by (simp add: sendMessage_start_def Let_def remove_id_append remove_id_simps
          id_tempUserMessage)
  have absent: "?tmp \<notin> set (remove_id (temp_id date_now) ms)" for ms
    by (rule not_in_remove_id) (simp add: id_tempUserMessage)
  have A: "let s' = sendMessage_done ?tmp (Inl e) ?s1
           in messages s' = remove_id (temp_id date_now) (messages s)
            \<and> optimisticMessages s' = remove_id (temp_id date_now) (optimisticMessages s)
            \<and> ?tmp \<notin> set (messages s') \<and> ?tmp \<notin> set (optimisticMessages s')
            \<and> ExtendedChatState.error s' = Some ''Failed to send message'' \<and> \<not> isTyping s'"
    using m1 o1 absent
    by (simp add: Let_def sendMessage_done_failure)
  have B: "let s' = fst (sendMessage date_now new_date conversationId text (s, w))
           in messages s' = remove_id (temp_id date_now) (messages s)
            \<and> optimisticMessages s' = remove_id (temp_id date_now) (optimisticMessages s)
            \<and> ?tmp \<notin> set (messages s') \<and> ?tmp \<notin> set (optimisticMessages s')
            \<and> (\<exists>msg. ExtendedChatState.error s' = Some msg) \<and> \<not> isTyping s'"
    if fail: "\<not> success (fst (api_sendMessage conversationId text w))"
  proof -
    obtain resp w' where rw: "api_sendMessage conversationId text w = (resp, w')"
      by (cases "api_sendMessage conversationId text w")
    from fail rw have ns: "\<not> success (facade_response resp)"
      by (simp add: facade_response_def)
    from api_sendMessage_shape[of conversationId "text" w] fail rw
    obtain msg where "ApiResponse.error resp = Some msg" by auto
    then have er: "ApiResponse.error (facade_response resp) = Some msg"
      by (simp add: facade_response_def)
    have s': "fst (sendMessage date_now new_date conversationId text (s, w))
                = sendMessage_done ?tmp (Inr (facade_response resp)) ?s1"
      by (simp add: sendMessage_def rw)
    show ?thesis
      unfolding s' using m1 o1 absent ns er
      by (simp add: Let_def sendMessage_done_failure)
  qed
  from A B show ?thesis by blast
qed

lemma sendMessage_rollback_fresh:
  assumes "temp_id date_now \<notin> Message.id' ` set (messages s)"
      and "temp_id date_now \<notin> Message.id' ` set (optimisticMessages s)"
  shows "remove_id (temp_id date_now) (messages s) = messages s"
    and "remove_id (temp_id date_now) (optimisticMessages s) = optimisticMessages s"
  using assms by (simp_all add: remove_id_fresh)

text \<open>
  C5, on the code: a first send to \<open>c1\<close>, started on the clock reading 1000, is in
  flight and its optimistic message is in the store. A second send starts on the same
  reading; the insert of its user message fails, so its facade call returns with
  \<open>success\<close> false. The rollback of the second send, which the code announces as
  "Remove optimistic message on error", filters by the temporary id, which both
  optimistic messages share: the store is left with no message, where the sequence
  before the second send held the first send's optimistic message. The error string
  recorded is the facade's fallback text.
\<close>

theorem rollback_removes_other_optimistic_message:
  "\<not> success (fst (api_sendMessage ''c1'' ''second'' flaky_world))
   \<and> messages first_send_in_flight = [tempUserMessage 1000 1000 ''c1'' ''first'']
   \<and> optimisticMessages first_send_in_flight = [tempUserMessage 1000 1000 ''c1'' ''first'']
   \<and> messages (fst (sendMessage 1000 1000 ''c1'' ''second''
        (first_send_in_flight, flaky_world))) = []
   \<and> optimisticMessages (fst (sendMessage 1000 1000 ''c1'' ''second''
        (first_send_in_flight, flaky_world))) = []
   \<and> messages (fst (sendMessage 1000 1000 ''c1'' ''second''
        (first_send_in_flight, flaky_world))) \<noteq> messages first_send_in_flight
   \<and> ExtendedChatState.error (fst (sendMessage 1000 1000 ''c1'' ''second''
        (first_send_in_flight, flaky_world))) = Some ''Failed to send message''"
  by (simp add: Let_def sendMessage_def api_sendMessage_def requestQueue_add_def
        sendMessage_request_def insert_message_def next_fault_def emit_def flaky_world_def
        example_world_def facade_response_def sendMessage_done_def sendMessage_start_def
        first_send_in_flight_def initialState_def remove_id_simps id_tempUserMessage)

section \<open>Properties of the facade\<close>

lemma decimal_50: "decimal 50 = ''50''"
  by code_simp

lemma decimal_0: "decimal 0 = ''0''"
  by code_simp

lemma api_getMessages_miss:
  assumes "get_message_rows (page_key (cacheKeys w) c l off) (now w) (cache w) = None"
      and "faults w = []"
  shows "api_getMessages c l off w =
           (\<lparr>data = page_rows c l off (message_rows w), error = None, success = True\<rparr>,
            w\<lparr>trace := trace w @ [QueueAdd, Select ''messages''],
              cache := cache_set (page_key (cacheKeys w) c l off)
                         (MessageRows (page_rows c l off (message_rows w)))
                         60000 (now w) (cache w)\<rparr>)"
  using assms
  by (simp add: api_getMessages_def requestQueue_add_def select_messages_def next_fault_def
        emit_def Let_def)

subsection \<open>What sendMessage does to the cache\<close>

lemma page_key_neq: "page_key keys c l off \<noteq> CacheKeys.messages keys c"
  by (simp add: page_key_def)

lemma next_fault_frame:
  "next_fault w = (f, w') \<Longrightarrow> cache w' = cache w \<and> cacheKeys w' = cacheKeys w"
  by (auto simp: next_fault_def split: list.splits)

lemma emit_frame [simp]: "cache (emit e w) = cache w" "cacheKeys (emit e w) = cacheKeys w"
  by (simp_all add: emit_def)

lemma insert_message_frame:
  "insert_message c t r w = (res, w') \<Longrightarrow> cache w' = cache w \<and> cacheKeys w' = cacheKeys w"
  by (auto simp: insert_message_def Let_def split: prod.splits option.splits
        dest!: next_fault_frame)

lemma fetch_chat_frame:
  "fetch_chat t c w = (res, w') \<Longrightarrow> cache w' = cache w \<and> cacheKeys w' = cacheKeys w"
  by (auto simp: fetch_chat_def)

lemma update_conversation_frame:
  "cache (update_conversation c w) = cache w
   \<and> cacheKeys (update_conversation c w) = cacheKeys w"
  by (auto simp: update_conversation_def split: prod.splits option.splits
        dest!: next_fault_frame)

lemma sendMessage_request_frame:
  "sendMessage_request c t w = (res, w') \<Longrightarrow>
     cacheKeys w' = cacheKeys w
     \<and> (cache w' = cache w
        \<or> cache w' = cache_delete (CacheKeys.messages (cacheKeys w) c) (cache w))"
  unfolding sendMessage_request_def
  by (auto simp: Let_def update_conversation_frame
        split: prod.splits sum.splits fetch_result.splits
        dest!: insert_message_frame fetch_chat_frame)

lemma api_sendMessage_frame:
  "api_sendMessage c t w = (res, w') \<Longrightarrow>
     cacheKeys w' = cacheKeys w
     \<and> (cache w' = cache w
        \<or> cache w' = cache_delete (CacheKeys.messages (cacheKeys w) c) (cache w))"
  unfolding api_sendMessage_def requestQueue_add_def
  by (auto split: prod.splits sum.splits dest!: sendMessage_request_frame)

text \<open>
  Whatever \<open>cacheKeys.messages\<close> builds, the key of a page is longer than the base key,
  so the one deletion of \<open>sendMessage\<close> never meets a page: every page entry is after
  the call what it was before.
\<close>

lemma api_sendMessage_keeps_page_entries:
  "cache (snd (api_sendMessage c t w)) (page_key (cacheKeys w) c l off)
     = cache w (page_key (cacheKeys w) c l off)"
proof -
  obtain res w' where r: "api_sendMessage c t w = (res, w')"
    by (cases "api_sendMessage c t w")
  from api_sendMessage_frame[OF r] page_key_neq[of "cacheKeys w" c l off]
  show ?thesis by (auto simp: r cache_delete_def)
qed

text \<open>
  C1, on the code: the first page of the empty conversation \<open>c1\<close> is loaded and cached
  under \<open>messages:c1:50:0\<close>; \<open>sendMessage\<close> then succeeds, stores the user's message
  and the reply, and deletes the key \<open>messages:c1\<close>, under which nothing was ever
  stored. The same page asked again is answered from the cache with the empty list
  written before the send; the world does not change, so no query was made.
\<close>

theorem sendMessage_leaves_cached_page:
  "success (fst (api_getMessages ''c1'' 50 0 example_world))
   \<and> success (fst (api_sendMessage ''c1'' ''Hello''
        (snd (api_getMessages ''c1'' 50 0 example_world))))
   \<and> map content (message_rows stale_world) = [''Hello'', ''Hi'']
   \<and> map conversation_id (message_rows stale_world) = [''c1'', ''c1'']
   \<and> api_getMessages ''c1'' 50 0 stale_world
        = (\<lparr>data = [], error = None, success = True\<rparr>, stale_world)"
  by (simp add: stale_world_def api_getMessages_def api_sendMessage_def sendMessage_request_def
        requestQueue_add_def get_message_rows_def select_messages_def insert_message_def
        update_conversation_def fetch_chat_def next_fault_def emit_def page_rows_def
        cache_get_def cache_set_def cache_delete_def page_key_def
        Let_def example_world_def example_keys_def decimal_50 decimal_0)

subsection \<open>Attempts\<close>

text \<open>
  C2, as amended. No facade operation calls \<open>withRetry\<close>: the task handed to the queue
  is the sequence of backend calls itself, and each call in it is attempted once. Whichever
  call fails first ends the operation at once with \<open>success\<close> false and that error's
  message (or the operation's fallback text): the first data call of any of the four
  operations, the completion request of \<open>sendMessage\<close> (a status that is not ok, or a
  throw), and the insert of the reply after a completion that succeeded. In each case
  exactly the failed call's entry of the fault script is used up and the trace ends with
  the failed call; the user's message saved before a failed reply insert stays saved. A
  failing update of the conversation's timestamp is not awaited and does not fail the
  operation. For every world the trace of an operation is one of the listed prefixes of
  its calls: no call occurs twice and there is no delay between calls.
\<close>

theorem facade_attempts_once:
  "(faults w = Some e # fs
    \<and> get_message_rows (page_key (cacheKeys w) conversationId limit offset) (now w) (cache w) = None
    \<longrightarrow> api_getMessages conversationId limit offset w
        = (\<lparr>data = [], error = Some (error_message e ''Failed to fetch messages''),
            success = False\<rparr>,
           w\<lparr>faults := fs, trace := trace w @ [QueueAdd, Select ''messages'']\<rparr>))
   \<and> (faults w = Some e # fs
      \<longrightarrow> api_sendMessage conversationId text w
        = (\<lparr>data = None, error = Some (error_message e ''Failed to send message''),
            success = False\<rparr>,
           w\<lparr>faults := fs, trace := trace w @ [QueueAdd, Insert ''messages'']\<rparr>))
   \<and> (faults w = Some e # fs \<and> session_user w = Some uid
      \<longrightarrow> api_createConversation ttl w
        = (\<lparr>data = None, error = Some (error_message e ''Failed to create conversation''),
            success = False\<rparr>,
           w\<lparr>faults := fs,
             trace := trace w @ [QueueAdd, AuthGetUser, Insert ''conversations'']\<rparr>))
   \<and> (faults w = Some e # fs \<and> session_user w = Some uid
      \<and> get_conversation_rows (CacheKeys.conversations (cacheKeys w) uid) (now w) (cache w) = None
      \<longrightarrow> api_getConversations w
        = (\<lparr>data = [], error = Some (error_message e ''Failed to fetch conversations''),
            success = False\<rparr>,
           w\<lparr>faults := fs,
             trace := trace w @ [AuthGetUser, QueueAdd, Select ''conversations'']\<rparr>))
   \<and> (fst (next_fault w) = None \<and> completion w text conversationId = FetchStatus status
      \<longrightarrow> fst (api_sendMessage conversationId text w)
          = \<lparr>data = None, error = Some (''AI service error: '' @ decimal status),
             success = False\<rparr>
        \<and> trace (snd (api_sendMessage conversationId text w))
          = trace w @ [QueueAdd, Insert ''messages'', Fetch])
   \<and> (fst (next_fault w) = None \<and> completion w text conversationId = FetchThrows e
      \<longrightarrow> fst (api_sendMessage conversationId text w)
          = \<lparr>data = None, error = Some (error_message e ''Failed to send message''),
             success = False\<rparr>
        \<and> trace (snd (api_sendMessage conversationId text w))
          = trace w @ [QueueAdd, Insert ''messages'', Fetch])
   \<and> (faults w = None # Some e # fs \<and> completion w text conversationId = FetchOk response
      \<longrightarrow> api_sendMessage conversationId text w
        = (\<lparr>data = None, error = Some (error_message e ''Failed to send message''),
            success = False\<rparr>,
           w\<lparr>faults := fs,
             trace := trace w @ [QueueAdd, Insert ''messages'', Fetch, Insert ''messages''],
             message_rows := message_rows w @ [persisted_user_message conversationId text w]\<rparr>))
   \<and> (faults w = None # None # Some e # fs \<and> completion w text conversationId = FetchOk response
      \<longrightarrow> success (fst (api_sendMessage conversationId text w))
        \<and> faults (snd (api_sendMessage conversationId text w)) = fs
        \<and> trace (snd (api_sendMessage conversationId text w))
          = trace w @ [QueueAdd, Insert ''messages'', Fetch, Insert ''messages'',
                       Update ''conversations''])
   \<and> trace (snd (api_sendMessage conversationId text w))
       \<in> {trace w @ [QueueAdd, Insert ''messages''],
          trace w @ [QueueAdd, Insert ''messages'', Fetch],
          trace w @ [QueueAdd, Insert ''messages'', Fetch, Insert ''messages''],
          trace w @ [QueueAdd, Insert ''messages'', Fetch, Insert ''messages'',
                     Update ''conversations'']}
   \<and> trace (snd (api_getMessages conversationId limit offset w))
       \<in> {trace w, trace w @ [QueueAdd, Select ''messages'']}
   \<and> trace (snd (api_createConversation ttl w))
       \<in> {trace w @ [QueueAdd, AuthGetUser],
          trace w @ [QueueAdd, AuthGetUser, Insert ''conversations'']}
   \<and> trace (snd (api_getConversations w))
       \<in> {trace w @ [AuthGetUser], trace w @ [AuthGetUser, QueueAdd, Select ''conversations'']}"
proof -
  have first: "(faults w = Some e # fs
    \<and> get_message_rows (page_key (cacheKeys w) conversationId limit offset) (now w) (cache w) = None
    \<longrightarrow> api_getMessages conversationId limit offset w
        = (\<lparr>data = [], error = Some (error_message e ''Failed to fetch messages''),
            success = False\<rparr>,
           w\<lparr>faults := fs, trace := trace w @ [QueueAdd, Select ''messages'']\<rparr>))
   \<and> (faults w = Some e # fs
      \<longrightarrow> api_sendMessage conversationId text w
        = (\<lparr>data = None, error = Some (error_message e ''Failed to send message''),
            success = False\<rparr>,
           w\<lparr>faults := fs, trace := trace w @ [QueueAdd, Insert ''messages'']\<rparr>))
   \<and> (faults w = Some e # fs \<and> session_user w = Some uid
      \<longrightarrow> api_createConversation ttl w
        = (\<lparr>data = None, error = Some (error_message e ''Failed to create conversation''),
            success = False\<rparr>,
           w\<lparr>faults := fs,
             trace := trace w @ [QueueAdd, AuthGetUser, Insert ''conversations'']\<rparr>))
   \<and> (faults w = Some e # fs \<and> session_user w = Some uid
      \<and> get_conversation_rows (CacheKeys.conversations (cacheKeys w) uid) (now w) (cache w) = None
      \<longrightarrow> api_getConversations w
        = (\<lparr>data = [], error = Some (error_message e ''Failed to fetch conversations''),
            success = False\<rparr>,
           w\<lparr>faults := fs,
             trace := trace w @ [AuthGetUser, QueueAdd, Select ''conversations'']\<rparr>))"
    by (simp add: api_getMessages_def api_sendMessage_def api_createConversation_def
        api_getConversations_def createConversation_request_def sendMessage_request_def
        requestQueue_add_def select_messages_def select_conversations_def insert_message_def
        insert_conversation_def auth_getUser_def fetch_chat_def next_fault_def emit_def Let_def)
  have fetch: "(fst (next_fault w) = None \<and> completion w text conversationId = FetchStatus status
      \<longrightarrow> fst (api_sendMessage conversationId text w)
          = \<lparr>data = None, error = Some (''AI service error: '' @ decimal status),
             success = False\<rparr>
        \<and> trace (snd (api_sendMessage conversationId text w))
          = trace w @ [QueueAdd, Insert ''messages'', Fetch])
   \<and> (fst (next_fault w) = None \<and> completion w text conversationId = FetchThrows e
      \<longrightarrow> fst (api_sendMessage conversationId text w)
          = \<lparr>data = None, error = Some (error_message e ''Failed to send message''),
             success = False\<rparr>
        \<and> trace (snd (api_sendMessage conversationId text w))
          = trace w @ [QueueAdd, Insert ''messages'', Fetch])"
    by (auto simp: api_sendMessage_def sendMessage_request_def requestQueue_add_def
        insert_message_def fetch_chat_def next_fault_def emit_def Let_def split: list.splits)
  have reply: "(faults w = None # Some e # fs \<and> completion w text conversationId = FetchOk response
      \<longrightarrow> api_sendMessage conversationId text w
        = (\<lparr>data = None, error = Some (error_message e ''Failed to send message''),
            success = False\<rparr>,
           w\<lparr>faults := fs,
             trace := trace w @ [QueueAdd, Insert ''messages'', Fetch, Insert ''messages''],
             message_rows := message_rows w @ [persisted_user_message conversationId text w]\<rparr>))
   \<and> (faults w = None # None # Some e # fs \<and> completion w text conversationId = FetchOk response
      \<longrightarrow> success (fst (api_sendMessage conversationId text w))
        \<and> faults (snd (api_sendMessage conversationId text w)) = fs
        \<and> trace (snd (api_sendMessage conversationId text w))
          = trace w @ [QueueAdd, Insert ''messages'', Fetch, Insert ''messages'',
                       Update ''conversations''])"
    by (simp add: api_sendMessage_def sendMessage_request_def requestQueue_add_def
        insert_message_def update_conversation_def fetch_chat_def next_fault_def emit_def
        Let_def persisted_user_message_def)
  have t1: "trace (snd (api_sendMessage conversationId text w))
       \<in> {trace w @ [QueueAdd, Insert ''messages''],
          trace w @ [QueueAdd, Insert ''messages'', Fetch],
          trace w @ [QueueAdd, Insert ''messages'', Fetch, Insert ''messages''],
          trace w @ [QueueAdd, Insert ''messages'', Fetch, Insert ''messages'',
                     Update ''conversations'']}"
    by (simp add: api_sendMessage_def sendMessage_request_def requestQueue_add_def
        insert_message_def update_conversation_def fetch_chat_def next_fault_def emit_def
        Let_def split: list.splits option.splits fetch_result.splits)
  have t2: "trace (snd (api_getMessages conversationId limit offset w))
       \<in> {trace w, trace w @ [QueueAdd, Select ''messages'']}"
    by (simp add: api_getMessages_def requestQueue_add_def select_messages_def next_fault_def
        emit_def Let_def split: list.splits option.splits)
  have t3: "trace (snd (api_createConversation ttl w))
       \<in> {trace w @ [QueueAdd, AuthGetUser],
          trace w @ [QueueAdd, AuthGetUser, Insert ''conversations'']}"
    by (simp add: api_createConversation_def createConversation_request_def
        requestQueue_add_def insert_conversation_def auth_getUser_def next_fault_def emit_def
        Let_def split: list.splits option.splits)
  have t4: "trace (snd (api_getConversations w))
       \<in> {trace w @ [AuthGetUser], trace w @ [AuthGetUser, QueueAdd, Select ''conversations'']}"
    by (simp add: api_getConversations_def requestQueue_add_def select_conversations_def
        auth_getUser_def next_fault_def emit_def Let_def split: list.splits option.splits)
  from first fetch reply t1 t2 t3 t4 show ?thesis
    by blast
qed

text \<open>
  The amended statement at concrete inputs: the four operations on a world whose next
  data call fails with the plain error object the data client returns, \<open>sendMessage\<close>
  against an endpoint that answers 500 and against one whose call is aborted, on a world
  where the insert of the reply fails, and on one where only the timestamp update fails.
\<close>

theorem facade_attempts_once_witness:
  "faults flaky_world = [Some OtherValue]
   \<and> session_user flaky_world = Some ''u1''
   \<and> get_message_rows (page_key (cacheKeys flaky_world) ''c1'' 50 0)
        (now flaky_world) (cache flaky_world) = None
   \<and> get_conversation_rows (CacheKeys.conversations (cacheKeys flaky_world) ''u1'')
        (now flaky_world) (cache flaky_world) = None
   \<and> api_getMessages ''c1'' 50 0 flaky_world
        = (\<lparr>data = [], error = Some ''Failed to fetch messages'', success = False\<rparr>,
           flaky_world\<lparr>faults := [], trace := [QueueAdd, Select ''messages'']\<rparr>)
   \<and> api_sendMessage ''c1'' ''Hello'' flaky_world
        = (\<lparr>data = None, error = Some ''Failed to send message'', success = False\<rparr>,
           flaky_world\<lparr>faults := [], trace := [QueueAdd, Insert ''messages'']\<rparr>)
   \<and> api_createConversation ''New Conversation'' flaky_world
        = (\<lparr>data = None, error = Some ''Failed to create conversation'', success = False\<rparr>,
           flaky_world\<lparr>faults := [],
             trace := [QueueAdd, AuthGetUser, Insert ''conversations'']\<rparr>)
   \<and> api_getConversations flaky_world
        = (\<lparr>data = [], error = Some ''Failed to fetch conversations'', success = False\<rparr>,
           flaky_world\<lparr>faults := [],
             trace := [AuthGetUser, QueueAdd, Select ''conversations'']\<rparr>)
   \<and> fst (next_fault outage_world) = None
   \<and> completion outage_world ''Hello'' ''c1'' = FetchStatus 500
   \<and> fst (api_sendMessage ''c1'' ''Hello'' outage_world)
        = \<lparr>data = None, error = Some ''AI service error: 500'', success = False\<rparr>
   \<and> trace (snd (api_sendMessage ''c1'' ''Hello'' outage_world))
        = [QueueAdd, Insert ''messages'', Fetch]
   \<and> fst (next_fault timeout_world) = None
   \<and> completion timeout_world ''Hello'' ''c1''
        = FetchThrows (ErrorObject ''The operation was aborted.'')
   \<and> fst (api_sendMessage ''c1'' ''Hello'' timeout_world)
        = \<lparr>data = None, error = Some ''The operation was aborted.'', success = False\<rparr>
   \<and> trace (snd (api_sendMessage ''c1'' ''Hello'' timeout_world))
        = [QueueAdd, Insert ''messages'', Fetch]
   \<and> faults reply_insert_fails_world = [None, Some OtherValue]
   \<and> completion reply_insert_fails_world ''Hello'' ''c1'' = FetchOk ''Hi''
   \<and> fst (api_sendMessage ''c1'' ''Hello'' reply_insert_fails_world)
        = \<lparr>data = None, error = Some ''Failed to send message'', success = False\<rparr>
   \<and> trace (snd (api_sendMessage ''c1'' ''Hello'' reply_insert_fails_world))
        = [QueueAdd, Insert ''messages'', Fetch, Insert ''messages'']
   \<and> faults (snd (api_sendMessage ''c1'' ''Hello'' reply_insert_fails_world)) = []
   \<and> faults update_fails_world = [None, None, Some OtherValue]
   \<and> completion update_fails_world ''Hello'' ''c1'' = FetchOk ''Hi''
   \<and> success (fst (api_sendMessage ''c1'' ''Hello'' update_fails_world))
   \<and> faults (snd (api_sendMessage ''c1'' ''Hello'' update_fails_world)) = []
   \<and> trace (snd (api_sendMessage ''c1'' ''Hello'' update_fails_world))
        = [QueueAdd, Insert ''messages'', Fetch, Insert ''messages'', Update ''conversations'']"
proof -
  have f: "faults flaky_world = [Some OtherValue]"
          "session_user flaky_world = Some ''u1''" "trace flaky_world = []"
    by (simp_all add: flaky_world_def example_world_def)
  have m: "get_message_rows (page_key (cacheKeys flaky_world) ''c1'' 50 0)
             (now flaky_world) (cache flaky_world) = None"
          "get_conversation_rows (CacheKeys.conversations (cacheKeys flaky_world) ''u1'')
             (now flaky_world) (cache flaky_world) = None"
    by (simp_all add: get_message_rows_def get_conversation_rows_def cache_get_def
          flaky_world_def example_world_def)
  have o: "fst (next_fault outage_world) = None" "trace outage_world = []"
          "completion outage_world ''Hello'' ''c1'' = FetchStatus 500"
    by (simp_all add: outage_world_def example_world_def next_fault_def)
  have t: "fst (next_fault timeout_world) = None" "trace timeout_world = []"
          "completion timeout_world ''Hello'' ''c1''
             = FetchThrows (ErrorObject ''The operation was aborted.'')"
    by (simp_all add: timeout_world_def example_world_def next_fault_def)
  have r: "faults reply_insert_fails_world = [None, Some OtherValue]"
          "trace reply_insert_fails_world = []"
          "completion reply_insert_fails_world ''Hello'' ''c1'' = FetchOk ''Hi''"
    by (simp_all add: reply_insert_fails_world_def example_world_def)
  have u: "faults update_fails_world = [None, None, Some OtherValue]"
          "trace update_fails_world = []"
          "completion update_fails_world ''Hello'' ''c1'' = FetchOk ''Hi''"
    by (simp_all add: update_fails_world_def example_world_def)
  have d: "decimal 500 = ''500''"
    by code_simp
  note a = facade_attempts_once[where w = flaky_world and e = OtherValue and fs = "[]"
             and conversationId = "''c1''" and limit = 50 and offset = 0 and ?text = "''Hello''"
             and uid = "''u1''" and ttl = "''New Conversation''"]
  note b = facade_attempts_once[where w = outage_world and conversationId = "''c1''"
             and ?text = "''Hello''" and status = 500]
  note c = facade_attempts_once[where w = timeout_world and conversationId = "''c1''"
             and ?text = "''Hello''" and e = "ErrorObject ''The operation was aborted.''"]
  note g = facade_attempts_once[where w = reply_insert_fails_world and e = OtherValue
             and fs = "[]" and conversationId = "''c1''" and ?text = "''Hello''"
             and response = "''Hi''"]
  note h = facade_attempts_once[where w = update_fails_world and e = OtherValue
             and fs = "[]" and conversationId = "''c1''" and ?text = "''Hello''"
             and response = "''Hi''"]
  from a f m have A: "api_getMessages ''c1'' 50 0 flaky_world
        = (\<lparr>data = [], error = Some ''Failed to fetch messages'', success = False\<rparr>,
           flaky_world\<lparr>faults := [], trace := [QueueAdd, Select ''messages'']\<rparr>)
   \<and> api_sendMessage ''c1'' ''Hello'' flaky_world
        = (\<lparr>data = None, error = Some ''Failed to send message'', success = False\<rparr>,
           flaky_world\<lparr>faults := [], trace := [QueueAdd, Insert ''messages'']\<rparr>)
   \<and> api_createConversation ''New Conversation'' flaky_world
        = (\<lparr>data = None, error = Some ''Failed to create conversation'', success = False\<rparr>,
           flaky_world\<lparr>faults := [],
             trace := [QueueAdd, AuthGetUser, Insert ''conversations'']\<rparr>)
   \<and> api_getConversations flaky_world
        = (\<lparr>data = [], error = Some ''Failed to fetch conversations'', success = False\<rparr>,
           flaky_world\<lparr>faults := [],
             trace := [AuthGetUser, QueueAdd, Select ''conversations'']\<rparr>)"
    by simp
  from b o d have B: "fst (api_sendMessage ''c1'' ''Hello'' outage_world)
        = \<lparr>data = None, error = Some ''AI service error: 500'', success = False\<rparr>
   \<and> trace (snd (api_sendMessage ''c1'' ''Hello'' outage_world))
        = [QueueAdd, Insert ''messages'', Fetch]"
    by simp
  from c t have C: "fst (api_sendMessage ''c1'' ''Hello'' timeout_world)
        = \<lparr>data = None, error = Some ''The operation was aborted.'', success = False\<rparr>
   \<and> trace (snd (api_sendMessage ''c1'' ''Hello'' timeout_world))
        = [QueueAdd, Insert ''messages'', Fetch]"
    by simp
  from g r have G: "api_sendMessage ''c1'' ''Hello'' reply_insert_fails_world
        = (\<lparr>data = None, error = Some ''Failed to send message'', success = False\<rparr>,
           reply_insert_fails_world\<lparr>faults := [],
             trace := [QueueAdd, Insert ''messages'', Fetch, Insert ''messages''],
             message_rows := message_rows reply_insert_fails_world
                @ [persisted_user_message ''c1'' ''Hello'' reply_insert_fails_world]\<rparr>)"
    by simp
  from h u have H: "success (fst (api_sendMessage ''c1'' ''Hello'' update_fails_world))
   \<and> faults (snd (api_sendMessage ''c1'' ''Hello'' update_fails_world)) = []
   \<and> trace (snd (api_sendMessage ''c1'' ''Hello'' update_fails_world))
        = [QueueAdd, Insert ''messages'', Fetch, Insert ''messages'', Update ''conversations'']"
    by simp
  from A B C H f m o t r u show ?thesis
    by (simp add: G)
qed

text \<open>
  C2 as stated fails: the first query of \<open>getMessages\<close> fails and the operation returns
  the error after that one attempt, where the same query wrapped in
  \<open>withRetry(\<dots>, 2, 500)\<close> waits 500 ms, asks again and returns the page.
\<close>

theorem facade_does_not_retry_counterexample:
  "api_getMessages ''c1'' 50 0 flaky_world
     = (\<lparr>data = [], error = Some ''Failed to fetch messages'', success = False\<rparr>,
        flaky_world\<lparr>faults := [], trace := [QueueAdd, Select ''messages'']\<rparr>)
   \<and> requestQueue_add (withRetry (select_messages ''c1'' 50 0) 2 500) flaky_world
     = (Inr [],
        flaky_world\<lparr>faults := [], now := 500,
          trace := [QueueAdd, Select ''messages'', Sleep 500, Select ''messages'']\<rparr>)"
  by (simp add: api_getMessages_def get_message_rows_def cache_get_def page_key_def
        requestQueue_add_def select_messages_def next_fault_def emit_def cache_set_def
        page_rows_def flaky_world_def example_world_def example_keys_def decimal_50 decimal_0
        Let_def withRetry_def withRetry_loop.simps backoff_def math_random_def)

subsection \<open>The shape of the results\<close>










subsection \<open>Without a session\<close>

lemma session_emit: "emit e (w\<lparr>session_user := u\<rparr>) = (emit e w)\<lparr>session_user := u\<rparr>"
  by (simp add: emit_def)

lemma session_next_fault:
  "next_fault (w\<lparr>session_user := u\<rparr>)
     = (fst (next_fault w), (snd (next_fault w))\<lparr>session_user := u\<rparr>)"
  by (simp add: next_fault_def split: list.splits)

lemma session_select_messages:
  "select_messages c l off (w\<lparr>session_user := u\<rparr>)
     = (fst (select_messages c l off w), (snd (select_messages c l off w))\<lparr>session_user := u\<rparr>)"
  by (simp add: select_messages_def session_emit session_next_fault
        split: prod.splits option.splits)

lemma session_insert_message:
  "insert_message c t r (w\<lparr>session_user := u\<rparr>)
     = (fst (insert_message c t r w), (snd (insert_message c t r w))\<lparr>session_user := u\<rparr>)"
  by (simp add: insert_message_def session_emit session_next_fault Let_def
        split: prod.splits option.splits)

lemma session_fetch_chat:
  "fetch_chat t c (w\<lparr>session_user := u\<rparr>)
     = (fst (fetch_chat t c w), (snd (fetch_chat t c w))\<lparr>session_user := u\<rparr>)"
  by (simp add: fetch_chat_def session_emit)

lemma session_update_conversation:
  "update_conversation c (w\<lparr>session_user := u\<rparr>)
     = (update_conversation c w)\<lparr>session_user := u\<rparr>"
  by (simp add: update_conversation_def session_emit session_next_fault
        split: prod.splits option.splits)

lemma session_api_getMessages:
  "api_getMessages c l off (w\<lparr>session_user := u\<rparr>)
     = (fst (api_getMessages c l off w), (snd (api_getMessages c l off w))\<lparr>session_user := u\<rparr>)"
  by (simp add: api_getMessages_def requestQueue_add_def session_emit session_select_messages
        Let_def split: prod.splits option.splits sum.splits)

lemma session_sendMessage_request:
  "sendMessage_request c t (w\<lparr>session_user := u\<rparr>)
     = (fst (sendMessage_request c t w), (snd (sendMessage_request c t w))\<lparr>session_user := u\<rparr>)"
  by (simp add: sendMessage_request_def session_insert_message session_fetch_chat
        session_update_conversation Let_def split: prod.splits sum.splits fetch_result.splits)

lemma session_api_sendMessage:
  "api_sendMessage c t (w\<lparr>session_user := u\<rparr>)
     = (fst (api_sendMessage c t w), (snd (api_sendMessage c t w))\<lparr>session_user := u\<rparr>)"
  by (simp add: api_sendMessage_def requestQueue_add_def session_emit
        session_sendMessage_request split: prod.splits sum.splits)

lemma api_getMessages_miss_trace:
  "get_message_rows (page_key (cacheKeys w) c l off) (now w) (cache w) = None \<Longrightarrow>
   trace (snd (api_getMessages c l off w)) = trace w @ [QueueAdd, Select ''messages'']"
  by (simp add: api_getMessages_def requestQueue_add_def select_messages_def next_fault_def
        emit_def Let_def split: list.splits option.splits)

lemma api_sendMessage_trace:
  "take (length (trace w) + 2) (trace (snd (api_sendMessage c t w)))
     = trace w @ [QueueAdd, Insert ''messages'']"
  by (simp add: api_sendMessage_def sendMessage_request_def requestQueue_add_def
        insert_message_def update_conversation_def fetch_chat_def next_fault_def emit_def
        Let_def split: list.splits option.splits fetch_result.splits)

text \<open>
  C7, as amended. Without a session, \<open>getConversations\<close> fails fast: it asks the auth
  client for the user and returns \<open>success\<close> false with \<open>User not authenticated\<close>;
  nothing is handed to the queue and no data or completion call is made.
  \<open>createConversation\<close> hands its task to the queue; the task asks for the user and
  throws before any insert, and the result is the same error, after that one attempt.
  \<open>getMessages\<close> and \<open>sendMessage\<close> never look at the session: they return what they
  return for a signed-in user and change the world in the same way; on a cache miss
  \<open>getMessages\<close> hands its query to the queue and runs it, and \<open>sendMessage\<close> always
  hands its task to the queue and starts with the insert of the user's message.
\<close>

theorem facade_without_session:
  assumes "session_user w = None"
  shows "api_getConversations w
           = (\<lparr>data = [], error = Some ''User not authenticated'', success = False\<rparr>,
              emit AuthGetUser w)
       \<and> api_createConversation ttl w
           = (\<lparr>data = None, error = Some ''User not authenticated'', success = False\<rparr>,
              emit AuthGetUser (emit QueueAdd w))
       \<and> api_getMessages conversationId limit offset w
           = (fst (api_getMessages conversationId limit offset (w\<lparr>session_user := Some uid\<rparr>)),
              (snd (api_getMessages conversationId limit offset (w\<lparr>session_user := Some uid\<rparr>)))
                \<lparr>session_user := None\<rparr>)
       \<and> api_sendMessage conversationId text w
           = (fst (api_sendMessage conversationId text (w\<lparr>session_user := Some uid\<rparr>)),
              (snd (api_sendMessage conversationId text (w\<lparr>session_user := Some uid\<rparr>)))
                \<lparr>session_user := None\<rparr>)
       \<and> (get_message_rows (page_key (cacheKeys w) conversationId limit offset) (now w) (cache w)
            = None
          \<longrightarrow> trace (snd (api_getMessages conversationId limit offset w))
              = trace w @ [QueueAdd, Select ''messages''])
       \<and> take (length (trace w) + 2) (trace (snd (api_sendMessage conversationId text w)))
           = trace w @ [QueueAdd, Insert ''messages'']"
proof -
  have w: "(w\<lparr>session_user := Some uid\<rparr>)\<lparr>session_user := None\<rparr> = w"
    using assms by simp
  have g: "api_getConversations w
             = (\<lparr>data = [], error = Some ''User not authenticated'', success = False\<rparr>,
                emit AuthGetUser w)"
    using assms by (simp add: api_getConversations_def auth_getUser_def)
  have c: "api_createConversation ttl w
             = (\<lparr>data = None, error = Some ''User not authenticated'', success = False\<rparr>,
                emit AuthGetUser (emit QueueAdd w))"
    using assms
    by (simp add: api_createConversation_def createConversation_request_def
          requestQueue_add_def auth_getUser_def emit_def)
  from session_api_getMessages[where w = "w\<lparr>session_user := Some uid\<rparr>" and u = None
         and c = conversationId and l = limit and off = offset]
  have m: "api_getMessages conversationId limit offset w
           = (fst (api_getMessages conversationId limit offset (w\<lparr>session_user := Some uid\<rparr>)),
              (snd (api_getMessages conversationId limit offset (w\<lparr>session_user := Some uid\<rparr>)))
                \<lparr>session_user := None\<rparr>)"
    unfolding w .
  from session_api_sendMessage[where w = "w\<lparr>session_user := Some uid\<rparr>" and u = None
         and c = conversationId and t = "text"]
  have s: "api_sendMessage conversationId text w
           = (fst (api_sendMessage conversationId text (w\<lparr>session_user := Some uid\<rparr>)),
              (snd (api_sendMessage conversationId text (w\<lparr>session_user := Some uid\<rparr>)))
                \<lparr>session_user := None\<rparr>)"
    unfolding w .
  from g c m s api_getMessages_miss_trace[of w conversationId limit offset]
       api_sendMessage_trace[of w conversationId "text"]
  show ?thesis by blast
qed

text \<open>The amended statement on the example world with nobody signed in.\<close>

theorem facade_without_session_witness:
  "session_user anonymous_world = None
   \<and> api_getConversations anonymous_world
       = (\<lparr>data = [], error = Some ''User not authenticated'', success = False\<rparr>,
          anonymous_world\<lparr>trace := [AuthGetUser]\<rparr>)
   \<and> api_createConversation ''New Conversation'' anonymous_world
       = (\<lparr>data = None, error = Some ''User not authenticated'', success = False\<rparr>,
          anonymous_world\<lparr>trace := [QueueAdd, AuthGetUser]\<rparr>)
   \<and> get_message_rows (page_key (cacheKeys anonymous_world) ''c1'' 50 0)
        (now anonymous_world) (cache anonymous_world) = None
   \<and> trace (snd (api_getMessages ''c1'' 50 0 anonymous_world)) = [QueueAdd, Select ''messages'']
   \<and> take 2 (trace (snd (api_sendMessage ''c1'' ''Hello'' anonymous_world)))
       = [QueueAdd, Insert ''messages'']"
proof -
  have n: "session_user anonymous_world = None" "trace anonymous_world = []"
    by (simp_all add: anonymous_world_def example_world_def)
  have m: "get_message_rows (page_key (cacheKeys anonymous_world) ''c1'' 50 0)
             (now anonymous_world) (cache anonymous_world) = None"
    by (simp add: get_message_rows_def cache_get_def anonymous_world_def example_world_def)
  note t = facade_without_session[OF n(1), of "''New Conversation''" "''c1''" 50 0 "''u1''"
             "''Hello''"]
  from t have g: "api_getConversations anonymous_world
       = (\<lparr>data = [], error = Some ''User not authenticated'', success = False\<rparr>,
          emit AuthGetUser anonymous_world)"
    by blast
  from t have c: "api_createConversation ''New Conversation'' anonymous_world
       = (\<lparr>data = None, error = Some ''User not authenticated'', success = False\<rparr>,
          emit AuthGetUser (emit QueueAdd anonymous_world))"
    by blast
  from t m have q: "trace (snd (api_getMessages ''c1'' 50 0 anonymous_world))
       = trace anonymous_world @ [QueueAdd, Select ''messages'']"
    by blast
  from t have i: "take (length (trace anonymous_world) + 2)
         (trace (snd (api_sendMessage ''c1'' ''Hello'' anonymous_world)))
       = trace anonymous_world @ [QueueAdd, Insert ''messages'']"
    by blast
  from g c q i show ?thesis
    by (simp add: n m emit_def numeral_2_eq_2)
qed

text \<open>
  C7 as stated fails: with nobody signed in, \<open>getMessages\<close> hands its query to the
  queue, runs it against the backend, caches the page and returns \<open>success\<close> true.
\<close>

theorem unauthenticated_getMessages_counterexample:
  "session_user anonymous_world = None
   \<and> fst (api_getMessages ''c1'' 50 0 anonymous_world)
       = \<lparr>data = [], error = None, success = True\<rparr>
   \<and> trace (snd (api_getMessages ''c1'' 50 0 anonymous_world))
       = [QueueAdd, Select ''messages'']
   \<and> cache_get ''messages:c1:50:0'' 0 (cache (snd (api_getMessages ''c1'' 50 0 anonymous_world)))
       = Some (MessageRows [])"
  by (simp add: api_getMessages_def get_message_rows_def cache_get_def page_key_def
        requestQueue_add_def select_messages_def next_fault_def emit_def cache_set_def
        page_rows_def anonymous_world_def example_world_def example_keys_def
        decimal_50 decimal_0 Let_def)

section \<open>Properties of loading\<close>

lemma getMessages_A:
  "fst (api_getMessages ''A'' 50 0 two_conversations)
     = \<lparr>data = [message_A], error = None, success = True\<rparr>"
  by (simp add: api_getMessages_def get_message_rows_def cache_get_def page_key_def
        requestQueue_add_def select_messages_def next_fault_def emit_def cache_set_def
        page_rows_def example_world_def example_keys_def decimal_50 decimal_0 Let_def
        two_conversations_def message_A_def message_B_def)

lemma getMessages_B:
  "fst (api_getMessages ''B'' 50 0 two_conversations)
     = \<lparr>data = [message_B], error = None, success = True\<rparr>"
  by (simp add: api_getMessages_def get_message_rows_def cache_get_def page_key_def
        requestQueue_add_def select_messages_def next_fault_def emit_def cache_set_def
        page_rows_def example_world_def example_keys_def decimal_50 decimal_0 Let_def
        two_conversations_def message_A_def message_B_def)

text \<open>
  C4, as amended. Selecting conversation A and then conversation B puts two loads in
  flight, one for each. The store applies the response of a load when it arrives,
  whatever the current conversation is then. When both loads succeed, the displayed
  messages are those of the response that arrived last: B's if A's response arrives
  first, A's if A's response arrives after B's; the current conversation is B in both
  cases.
\<close>

theorem late_response_is_applied:
  assumes "success rA" and "success rB"
  shows "snd (setCurrentConversation (Some a) s) = Some (Conversation.id' a)
       \<and> snd (setCurrentConversation (Some b) (fst (setCurrentConversation (Some a) s)))
           = Some (Conversation.id' b)
       \<and> messages (loadMessages_done (Inr rB) (loadMessages_done (Inr rA)
            (fst (setCurrentConversation (Some b) (fst (setCurrentConversation (Some a) s))))))
           = data rB
       \<and> messages (loadMessages_done (Inr rA) (loadMessages_done (Inr rB)
            (fst (setCurrentConversation (Some b) (fst (setCurrentConversation (Some a) s))))))
           = data rA
       \<and> currentConversation (loadMessages_done (Inr rB) (loadMessages_done (Inr rA)
            (fst (setCurrentConversation (Some b) (fst (setCurrentConversation (Some a) s))))))
           = Some b
       \<and> currentConversation (loadMessages_done (Inr rA) (loadMessages_done (Inr rB)
            (fst (setCurrentConversation (Some b) (fst (setCurrentConversation (Some a) s))))))
           = Some b"
  using assms
  by (simp add: setCurrentConversation_def loadMessages_done_def loadMessages_start_def Let_def)

text \<open>The amended statement on the two example conversations, A's response first.\<close>

theorem late_response_is_applied_witness:
  "success (fst (api_getMessages ''A'' 50 0 two_conversations))
   \<and> success (fst (api_getMessages ''B'' 50 0 two_conversations))
   \<and> messages
       (loadMessages_done (Inr (fst (api_getMessages ''B'' 50 0 two_conversations)))
          (loadMessages_done (Inr (fst (api_getMessages ''A'' 50 0 two_conversations)))
             (fst (setCurrentConversation (Some conversation_B)
                (fst (setCurrentConversation (Some conversation_A) initialState))))))
     = [message_B]"
  using late_response_is_applied[of "fst (api_getMessages ''A'' 50 0 two_conversations)"
          "fst (api_getMessages ''B'' 50 0 two_conversations)"
          conversation_A initialState conversation_B]
  by (simp add: getMessages_A getMessages_B)

text \<open>
  C4 as stated fails: the load for A is in flight when the store switches to B; B's
  response arrives, then A's. The store then shows A's message while the current
  conversation is B.
\<close>

theorem stale_response_counterexample:
  "messages
     (loadMessages_done (Inr (fst (api_getMessages ''A'' 50 0 two_conversations)))
        (loadMessages_done (Inr (fst (api_getMessages ''B'' 50 0 two_conversations)))
           (fst (setCurrentConversation (Some conversation_B)
              (fst (setCurrentConversation (Some conversation_A) initialState))))))
   = [message_A]
   \<and> [message_A] \<noteq> data (fst (api_getMessages ''B'' 50 0 two_conversations))
   \<and> currentConversation
     (loadMessages_done (Inr (fst (api_getMessages ''A'' 50 0 two_conversations)))
        (loadMessages_done (Inr (fst (api_getMessages ''B'' 50 0 two_conversations)))
           (fst (setCurrentConversation (Some conversation_B)
              (fst (setCurrentConversation (Some conversation_A) initialState))))))
   = Some conversation_B"
  by (simp add: getMessages_A getMessages_B setCurrentConversation_def loadMessages_done_def
        loadMessages_start_def Let_def initialState_def message_A_def message_B_def)

subsection \<open>Order of the loaded messages\<close>

lemma filter_history: "filter (\<lambda>m. conversation_id m = ''c1'') (history n) = history n"
  by (simp add: history_def history_message_def)

lemma created_at_history: "map Message.created_at (history n) = [0..<n]"
  by (simp add: history_def history_message_def comp_def map_idI)

lemma sort_history: "sort_key Message.created_at (history n) = history n"
  by (rule sort_key_id_if_sorted) (simp add: created_at_history)

lemma take_history: "take 50 (history 51) = history 50"
  by (simp add: history_def take_map)

lemma drop_history: "drop 50 (history 51) = [history_message 50]"
  by (simp add: history_def drop_map)

lemma length_history: "length (history n) = n"
  by (simp add: history_def)

text \<open>Every page that the query returns is ordered oldest first.\<close>

lemma page_rows_sorted: "sorted (map Message.created_at (page_rows c l off rows))"
  unfolding page_rows_def
  by (simp add: take_map[symmetric] drop_map[symmetric] sorted_wrt_take sorted_wrt_drop)

lemma loadMessages_long:
  "loadMessages ''c1'' (initialState, long_conversation)
     = (initialState\<lparr>messages := history 50, messageOffset := 50, hasMoreMessages := True\<rparr>,
        long_conversation\<lparr>trace := [QueueAdd, Select ''messages''],
          cache := cache_set ''messages:c1:50:0'' (MessageRows (history 50)) 60000 0 Map.empty\<rparr>)"
proof -
  have miss: "get_message_rows (page_key (cacheKeys long_conversation) ''c1'' 50 0)
                (now long_conversation) (cache long_conversation) = None"
    by (simp add: get_message_rows_def cache_get_def long_conversation_def example_world_def)
  have nf: "faults long_conversation = []"
    by (simp add: long_conversation_def example_world_def)
  have key: "page_key (cacheKeys long_conversation) ''c1'' 50 0 = ''messages:c1:50:0''"
    by (simp add: page_key_def long_conversation_def example_world_def example_keys_def
          decimal_50 decimal_0)
  have rows: "page_rows ''c1'' 50 0 (message_rows long_conversation) = history 50"
    by (simp add: page_rows_def long_conversation_def filter_history sort_history take_history)
  have w: "now long_conversation = 0" "cache long_conversation = Map.empty"
          "trace long_conversation = []"
    by (simp_all add: long_conversation_def example_world_def)
  show ?thesis
    by (simp add: loadMessages_def api_getMessages_miss[OF miss nf] rows key w
          loadMessages_done_def loadMessages_start_def initialState_def length_history)
qed

lemma loadMoreMessages_long:
  "fst (loadMoreMessages ''c1'' (loadMessages ''c1'' (initialState, long_conversation)))
     = initialState\<lparr>messages := history_message 50 # history 50, messageOffset := 51,
                     hasMoreMessages := False\<rparr>"
proof -
  let ?w1 = "long_conversation\<lparr>trace := [QueueAdd, Select ''messages''],
          cache := cache_set ''messages:c1:50:0'' (MessageRows (history 50)) 60000 0 Map.empty\<rparr>"
  have key: "page_key (cacheKeys ?w1) ''c1'' 50 50 = ''messages:c1:50:50''"
    by (simp add: page_key_def long_conversation_def example_world_def example_keys_def
          decimal_50)
  have miss: "get_message_rows (page_key (cacheKeys ?w1) ''c1'' 50 50) (now ?w1) (cache ?w1) = None"
    unfolding key by (simp add: get_message_rows_def cache_get_def cache_set_def)
  have nf: "faults ?w1 = []"
    by (simp add: long_conversation_def example_world_def)
  have rows: "page_rows ''c1'' 50 50 (message_rows long_conversation) = [history_message 50]"
    by (simp add: page_rows_def long_conversation_def filter_history sort_history drop_history)
  show ?thesis
    unfolding loadMessages_long
    by (simp add: loadMoreMessages_def loadMoreMessages_start_def initialState_def
          api_getMessages_miss[OF miss nf] rows loadMoreMessages_done_def)
qed

text \<open>
  C6, on the code: a conversation of 51 messages, created at the times 0 to 50. The
  first load shows the 50 oldest; "load more" asks for the page at offset 50 of the
  same ascending query, which holds the newest message, and puts it in front of the
  list. The store then shows the message of time 50 before those of the times 0 to 49:
  the list is not ordered by creation time.
\<close>

theorem loadMore_prepends_newer_page:
  "messages (fst (loadMoreMessages ''c1'' (loadMessages ''c1'' (initialState, long_conversation))))
     = history_message 50 # history 50
   \<and> map Message.created_at
       (messages (fst (loadMoreMessages ''c1''
          (loadMessages ''c1'' (initialState, long_conversation)))))
     = 50 # [0..<50]
   \<and> \<not> sorted (map Message.created_at
       (messages (fst (loadMoreMessages ''c1''
          (loadMessages ''c1'' (initialState, long_conversation))))))"
proof -
  have "\<not> sorted ((50::nat) # [0..<50])"
    by (simp add: upt_conv_Cons)
  then show ?thesis
    by (simp add: loadMoreMessages_long created_at_history history_message_def)
qed


section \<open>A failed send and the backend\<close>

lemma next_fault_emit:
  "next_fault (emit e w) = (fst (next_fault w), emit e (snd (next_fault w)))"
  by (simp add: next_fault_def emit_def split: list.splits)

lemma next_fault_rows [simp]:
  "message_rows (snd (next_fault w)) = message_rows w"
  "trace (snd (next_fault w)) = trace w"
  "cache (snd (next_fault w)) = cache w"
  "cacheKeys (snd (next_fault w)) = cacheKeys w"
  "now (snd (next_fault w)) = now w"
  by (simp_all add: next_fault_def split: list.splits)

lemma emit_fields [simp]:
  "message_rows (emit e w) = message_rows w"
  "now (emit e w) = now w"
  "faults (emit e w) = faults w"
  by (simp_all add: emit_def)

lemma api_getMessages_miss_ok:
  assumes "get_message_rows (page_key (cacheKeys w) c l off) (now w) (cache w) = None"
      and "fst (next_fault w) = None"
  shows "fst (api_getMessages c l off w)
           = \<lparr>data = page_rows c l off (message_rows w), error = None, success = True\<rparr>"
  using assms
  by (simp add: api_getMessages_def requestQueue_add_def select_messages_def next_fault_emit
        Let_def split: prod.splits option.splits)

lemma insert_message_ok:
  assumes "insert_message c t r w = (Inr row, w1)"
  shows "message_rows w1 = message_rows w @ [row]"
    and "conversation_id row = c" and "content row = t" and "role row = r"
    and "cache w1 = cache w" and "cacheKeys w1 = cacheKeys w" and "now w1 = now w"
  using assms
  by (auto simp: insert_message_def next_fault_emit Let_def split: prod.splits option.splits)

lemma insert_message_failed:
  assumes "insert_message c t r w = (Inl e, w1)"
  shows "message_rows w1 = message_rows w"
    and "cache w1 = cache w" and "cacheKeys w1 = cacheKeys w" and "now w1 = now w"
  using assms
  by (auto simp: insert_message_def next_fault_emit Let_def split: prod.splits option.splits)

lemma sendMessage_request_failed:
  assumes ins: "insert_message c t user w = (Inr row, w1)"
      and req: "sendMessage_request c t w = (Inl e, w')"
  shows "message_rows w' = message_rows w @ [row] \<and> cache w' = cache w
         \<and> cacheKeys w' = cacheKeys w \<and> now w' = now w"
proof (cases "completion w1 t c")
  case (FetchOk response)
  obtain r2 w3 where i2: "insert_message c response assistant (emit Fetch w1) = (r2, w3)"
    by (cases "insert_message c response assistant (emit Fetch w1)")
  show ?thesis
  proof (cases r2)
    case (Inl e2)
    with req ins FetchOk i2 have "w' = w3"
      by (simp add: sendMessage_request_def fetch_chat_def)
    with insert_message_failed[OF i2[unfolded Inl]] insert_message_ok[OF ins]
    show ?thesis by simp
  next
    case (Inr m)
    with req ins FetchOk i2 show ?thesis
      by (simp add: sendMessage_request_def fetch_chat_def Let_def)
  qed
next
  case (FetchStatus st)
  with req ins have "w' = emit Fetch w1"
    by (simp add: sendMessage_request_def fetch_chat_def)
  with insert_message_ok[OF ins] show ?thesis by simp
next
  case (FetchThrows x)
  with req ins have "w' = emit Fetch w1"
    by (simp add: sendMessage_request_def fetch_chat_def)
  with insert_message_ok[OF ins] show ?thesis by simp
qed

lemma api_sendMessage_failed:
  assumes ins: "insert_message c t user (emit QueueAdd w) = (Inr row, w1)"
      and fail: "\<not> success (fst (api_sendMessage c t w))"
  shows "message_rows (snd (api_sendMessage c t w)) = message_rows w @ [row]
         \<and> cache (snd (api_sendMessage c t w)) = cache w
         \<and> cacheKeys (snd (api_sendMessage c t w)) = cacheKeys w
         \<and> now (snd (api_sendMessage c t w)) = now w"
proof -
  obtain r w' where req: "sendMessage_request c t (emit QueueAdd w) = (r, w')"
    by (cases "sendMessage_request c t (emit QueueAdd w)")
  with fail obtain e where r: "r = Inl e"
    by (cases r) (simp_all add: api_sendMessage_def requestQueue_add_def)
  from req r have s: "snd (api_sendMessage c t w) = w'"
    by (simp add: api_sendMessage_def requestQueue_add_def)
  from sendMessage_request_failed[OF ins req[unfolded r]] show ?thesis
    unfolding s by simp
qed

lemma row_in_first_page:
  assumes "conversation_id row = c"
      and "length (filter (\<lambda>m. conversation_id m = c) rows) < l"
  shows "row \<in> set (page_rows c l 0 (rows @ [row]))"
  using assms by (simp add: page_rows_def)


lemma insert_user_message:
  "fst (next_fault w) = None \<Longrightarrow>
   \<exists>w1. insert_message c t user (emit QueueAdd w) = (Inr (persisted_user_message c t w), w1)"
  by (simp add: insert_message_def next_fault_emit persisted_user_message_def Let_def
        split: prod.splits)

lemma next_fault_now: "fst (next_fault (w\<lparr>now := t\<rparr>)) = fst (next_fault w)"
  by (simp add: next_fault_def split: list.splits)

lemma messages_loadMessages:
  "success (fst (api_getMessages c 50 0 w)) \<Longrightarrow>
   messages (fst (loadMessages c (s, w))) = data (fst (api_getMessages c 50 0 w))"
  by (auto simp: loadMessages_def loadMessages_done_def split: prod.splits)

lemma sendMessage_failed_messages:
  assumes "temp_id date_now \<notin> Message.id' ` set (messages s)"
      and "\<not> success (fst (api_sendMessage conversationId text w))"
  shows "messages (fst (sendMessage date_now new_date conversationId text (s, w))) = messages s"
proof -
  obtain resp w' where rw: "api_sendMessage conversationId text w = (resp, w')"
    by (cases "api_sendMessage conversationId text w")
  with assms(2) have ns: "\<not> success (facade_response resp)"
    by (simp add: facade_response_def)
  have "messages (fst (sendMessage date_now new_date conversationId text (s, w)))
          = remove_id (temp_id date_now)
              (messages (sendMessage_start date_now new_date conversationId text s))"
    using ns by (simp add: sendMessage_def rw sendMessage_done_failure id_tempUserMessage)
  also have "\<dots> = messages s"
    using assms(1)
    by (simp add: sendMessage_start_def Let_def remove_id_append remove_id_simps
          id_tempUserMessage remove_id_fresh)
  finally show ?thesis .
qed

lemma snd_sendMessage: "snd (sendMessage dn nd c t (s, w)) = snd (api_sendMessage c t w)"
  by (simp add: sendMessage_def split: prod.splits)

text \<open>
  C9, as amended. \<open>sendMessage\<close> starts with the insert of the user's message and
  asks the completion endpoint only afterwards. When that insert succeeds and the
  operation then fails (the completion call answers with an error status, throws or is
  aborted at the timeout, or the insert of the reply fails), nothing deletes the row:
  the backend holds it, while the store's rollback leaves the message list as it was
  before the send, without the row. A later load of the first page shows the row if it
  is not answered from the cache (the failure path deletes no cache entry, so a page
  cached before the send stays valid until its expiry), if its query succeeds, and if
  the conversation had fewer than 50 messages, so that the row is on the first page.
\<close>

theorem failed_send_keeps_user_message:
  assumes ok: "fst (next_fault w) = None"
      and fail: "\<not> success (fst (api_sendMessage conversationId text w))"
      and fresh_m: "temp_id date_now \<notin> Message.id' ` set (messages s)"
      and new_id: "persisted_user_message conversationId text w \<notin> set (messages s)"
  shows "take (length (trace w) + 2)
           (trace (snd (sendMessage date_now new_date conversationId text (s, w))))
           = trace w @ [QueueAdd, Insert ''messages'']
       \<and> message_rows (snd (sendMessage date_now new_date conversationId text (s, w)))
           = message_rows w @ [persisted_user_message conversationId text w]
       \<and> messages (fst (sendMessage date_now new_date conversationId text (s, w))) = messages s
       \<and> persisted_user_message conversationId text w
           \<notin> set (messages (fst (sendMessage date_now new_date conversationId text (s, w))))
       \<and> (get_message_rows (page_key (cacheKeys w) conversationId 50 0) t (cache w) = None
          \<and> fst (next_fault (snd (sendMessage date_now new_date conversationId text (s, w)))) = None
          \<and> length (filter (\<lambda>m. conversation_id m = conversationId) (message_rows w)) < 50
          \<longrightarrow> persisted_user_message conversationId text w
              \<in> set (messages (fst (loadMessages conversationId
                    (fst (sendMessage date_now new_date conversationId text (s, w)),
                     (snd (sendMessage date_now new_date conversationId text (s, w)))
                       \<lparr>now := t\<rparr>)))))"
proof -
  let ?row = "persisted_user_message conversationId text w"
  let ?sw = "sendMessage date_now new_date conversationId text (s, w)"
  from insert_user_message[OF ok] obtain w1 where
    ins: "insert_message conversationId text user (emit QueueAdd w) = (Inr ?row, w1)"
    by blast
  note f = api_sendMessage_failed[OF ins fail]
  have rows: "message_rows (snd ?sw) = message_rows w @ [?row]"
    using f by (simp add: snd_sendMessage)
  have msgs: "messages (fst ?sw) = messages s"
    using sendMessage_failed_messages[OF fresh_m fail] .
  have absent: "?row \<notin> set (messages (fst ?sw))"
    using new_id msgs by simp
  have load: "?row \<in> set (messages (fst (loadMessages conversationId
                    (fst ?sw, (snd ?sw)\<lparr>now := t\<rparr>))))"
    if miss: "get_message_rows (page_key (cacheKeys w) conversationId 50 0) t (cache w) = None"
      and nf: "fst (next_fault (snd ?sw)) = None"
      and short: "length (filter (\<lambda>m. conversation_id m = conversationId) (message_rows w)) < 50"
  proof -
    let ?w' = "(snd ?sw)\<lparr>now := t\<rparr>"
    have m': "get_message_rows (page_key (cacheKeys ?w') conversationId 50 0) (now ?w') (cache ?w') = None"
      using miss f by (simp add: snd_sendMessage)
    have nf': "fst (next_fault ?w') = None"
      using nf by (simp add: next_fault_now)
    have r: "fst (api_getMessages conversationId 50 0 ?w')
               = \<lparr>data = page_rows conversationId 50 0 (message_rows w @ [?row]),
                  error = None, success = True\<rparr>"
      using api_getMessages_miss_ok[OF m' nf'] rows by simp
    have "conversation_id ?row = conversationId"
      by (simp add: persisted_user_message_def)
    from row_in_first_page[OF this short] r show ?thesis
      by (simp add: messages_loadMessages)
  qed
  have order: "take (length (trace w) + 2) (trace (snd ?sw))
                 = trace w @ [QueueAdd, Insert ''messages'']"
    by (simp only: snd_sendMessage api_sendMessage_trace)
  from order rows msgs absent load show ?thesis by blast
qed

text \<open>
  C9 as stated fails in its last part: the first page of \<open>c1\<close> is loaded and cached,
  a send then fails at the completion endpoint and leaves the user's message in the
  backend, and the next load of the page is answered from the cache: the store shows
  no message.
\<close>

theorem cached_page_hides_user_message_counterexample:
  "\<not> success (fst (api_sendMessage ''c1'' ''Hello''
        (snd (loadMessages ''c1'' (initialState, outage_world)))))
   \<and> map content (message_rows (snd (loadMessages ''c1''
        (sendMessage 1000 1000 ''c1'' ''Hello''
           (loadMessages ''c1'' (initialState, outage_world))))))
     = [''Hello'']
   \<and> messages (fst (loadMessages ''c1''
        (sendMessage 1000 1000 ''c1'' ''Hello''
           (loadMessages ''c1'' (initialState, outage_world)))))
     = []"
  by (simp add: loadMessages_def sendMessage_def api_getMessages_def api_sendMessage_def
        sendMessage_request_def requestQueue_add_def get_message_rows_def select_messages_def
        insert_message_def fetch_chat_def next_fault_def emit_def page_rows_def
        cache_get_def cache_set_def page_key_def Let_def
        outage_world_def example_world_def example_keys_def decimal_50 decimal_0
        loadMessages_done_def loadMessages_start_def sendMessage_done_def sendMessage_start_def
        facade_response_def initialState_def remove_id_simps id_tempUserMessage)

text \<open>
  The amended statement on the example world whose completion endpoint answers 500.
\<close>

theorem failed_send_keeps_user_message_witness:
  "fst (next_fault outage_world) = None
   \<and> \<not> success (fst (api_sendMessage ''c1'' ''Hello'' outage_world))
   \<and> get_message_rows (page_key (cacheKeys outage_world) ''c1'' 50 0) 0 (cache outage_world) = None
   \<and> fst (next_fault (snd (sendMessage 1000 1000 ''c1'' ''Hello'' (initialState, outage_world)))) = None
   \<and> message_rows (snd (sendMessage 1000 1000 ''c1'' ''Hello'' (initialState, outage_world)))
       = [persisted_user_message ''c1'' ''Hello'' outage_world]
   \<and> messages (fst (sendMessage 1000 1000 ''c1'' ''Hello'' (initialState, outage_world))) = []
   \<and> persisted_user_message ''c1'' ''Hello'' outage_world
       \<in> set (messages (fst (loadMessages ''c1''
             (fst (sendMessage 1000 1000 ''c1'' ''Hello'' (initialState, outage_world)),
              (snd (sendMessage 1000 1000 ''c1'' ''Hello'' (initialState, outage_world)))
                \<lparr>now := 0\<rparr>))))"
proof -
  have ok: "fst (next_fault outage_world) = None"
    by (simp add: next_fault_def outage_world_def example_world_def)
  have fail: "\<not> success (fst (api_sendMessage ''c1'' ''Hello'' outage_world))"
    by (simp add: api_sendMessage_def sendMessage_request_def requestQueue_add_def
          insert_message_def fetch_chat_def next_fault_def emit_def Let_def
          outage_world_def example_world_def)
  have fm: "temp_id 1000 \<notin> Message.id' ` set (messages initialState)"
   and ni: "persisted_user_message ''c1'' ''Hello'' outage_world \<notin> set (messages initialState)"
    by (simp_all add: initialState_def)
  have miss: "get_message_rows (page_key (cacheKeys outage_world) ''c1'' 50 0) 0
                (cache outage_world) = None"
    by (simp add: get_message_rows_def cache_get_def outage_world_def example_world_def)
  have nf: "fst (next_fault (snd (sendMessage 1000 1000 ''c1'' ''Hello''
              (initialState, outage_world)))) = None"
    by (simp add: snd_sendMessage api_sendMessage_def sendMessage_request_def
          requestQueue_add_def insert_message_def fetch_chat_def next_fault_def emit_def Let_def
          outage_world_def example_world_def)
  have short: "length (filter (\<lambda>m. conversation_id m = ''c1'') (message_rows outage_world)) < 50"
    by (simp add: outage_world_def example_world_def)
  have rows0: "message_rows outage_world = []" "messages initialState = []"
    by (simp_all add: outage_world_def example_world_def initialState_def)
  from failed_send_keeps_user_message[OF ok fail fm ni, of 1000 0] miss nf short ok fail
  show ?thesis
    by (simp add: rows0)
qed



section \<open>Properties of the request queue\<close>

lemma process_loop_stop:
  "queue q = [] \<or> \<not> currentRequests q < maxConcurrent q \<Longrightarrow> process_loop q = q"
  by (subst process_loop.simps) auto

lemma process_loop_go:
  "queue q = t # ts \<Longrightarrow> currentRequests q < maxConcurrent q \<Longrightarrow>
   process_loop q
     = process_loop (q\<lparr>queue := ts, currentRequests := currentRequests q + 1,
                       executing := executing q @ [t]\<rparr>)"
  by (subst process_loop.simps) simp

lemma process_loop_cases:
  obtains (stop) "queue q = [] \<or> \<not> currentRequests q < maxConcurrent q" "process_loop q = q"
  | (go) t ts where "queue q = t # ts" "currentRequests q < maxConcurrent q"
      "process_loop q
         = process_loop (q\<lparr>queue := ts, currentRequests := currentRequests q + 1,
                           executing := executing q @ [t]\<rparr>)"
      "q\<lparr>queue := tl (queue q), currentRequests := currentRequests q + 1,
         executing := executing q @ [hd (queue q)]\<rparr>
         = q\<lparr>queue := ts, currentRequests := currentRequests q + 1,
             executing := executing q @ [t]\<rparr>"
proof (cases "queue q")
  case Nil
  then show ?thesis using stop process_loop_stop by blast
next
  case (Cons t ts)
  show ?thesis
  proof (cases "currentRequests q < maxConcurrent q")
    case True
    with Cons go process_loop_go show ?thesis by fastforce
  next
    case False
    then show ?thesis using stop process_loop_stop by blast
  qed
qed

lemma process_loop_processing: "processing (process_loop q) = processing q"
proof (induction q rule: process_loop.induct)
  case (1 q)
  show ?case
  proof (cases q rule: process_loop_cases)
    case stop
    then show ?thesis by simp
  next
    case (go t ts)
    with 1 show ?thesis by simp
  qed
qed

lemma process_loop_consistent: "consistent q \<Longrightarrow> consistent (process_loop q)"
proof (induction q rule: process_loop.induct)
  case (1 q)
  show ?case
  proof (cases q rule: process_loop_cases)
    case stop
    with 1 show ?thesis by simp
  next
    case (go t ts)
    have "consistent (q\<lparr>queue := ts, currentRequests := currentRequests q + 1,
             executing := executing q @ [t]\<rparr>)"
      using "1.prems" go(1,2) by (auto simp: consistent_def)
    with 1 go show ?thesis by simp
  qed
qed

lemma process_loop_exit:
  "queue (process_loop q) = [] \<or> currentRequests (process_loop q) \<ge> maxConcurrent (process_loop q)"
proof (induction q rule: process_loop.induct)
  case (1 q)
  show ?case
  proof (cases q rule: process_loop_cases)
    case stop
    then show ?thesis by auto
  next
    case (go t ts)
    with 1 show ?thesis by simp
  qed
qed

lemma consistent_processing [simp]: "consistent (q\<lparr>processing := b\<rparr>) = consistent q"
  by (simp add: consistent_def)

lemma process_good:
  assumes "consistent q" and "\<not> processing q"
  shows "consistent (process q) \<and> idle (process q)"
proof (cases "currentRequests q \<ge> maxConcurrent q")
  case True
  with assms show ?thesis by (simp add: process_def idle_def)
next
  case False
  with assms process_loop_consistent[of "q\<lparr>processing := True\<rparr>"]
       process_loop_exit[of "q\<lparr>processing := True\<rparr>"]
  show ?thesis by (simp add: process_def idle_def)
qed

lemma handle_bound:
  assumes "consistent q" and "t \<in> set (queue q) \<union> set (executing q)"
  shows "handle t < length (submitted q)"
proof -
  from assms(2) have "handle t \<in># mset (map handle (queue q)) + mset (map handle (executing q))
                        + mset (map fst (settled q))"
    by auto
  with assms(1) have "handle t \<in># mset [0..<length (submitted q)]"
    by (simp add: consistent_def)
  then show ?thesis by simp
qed

lemma settled_bound:
  assumes "consistent q" and "(h, r) \<in> set (settled q)"
  shows "h < length (submitted q)"
proof -
  from assms(2) have "h \<in># mset (map handle (queue q)) + mset (map handle (executing q))
                        + mset (map fst (settled q))"
    by force
  with assms(1) have "h \<in># mset [0..<length (submitted q)]"
    by (simp add: consistent_def)
  then show ?thesis by simp
qed

lemma add_good:
  assumes c: "consistent q" and i: "idle q"
  shows "consistent (add request q) \<and> idle (add request q)"
proof -
  let ?q1 = "q\<lparr>queue := queue q @ [\<lparr>handle = length (submitted q), outcome = request\<rparr>],
               submitted := submitted q @ [request]\<rparr>"
  have "consistent ?q1"
    using c handle_bound[OF c] settled_bound[OF c]
    by (auto simp: consistent_def nth_append)
  moreover have "\<not> processing ?q1" using i by (simp add: idle_def)
  ultimately show ?thesis by (simp add: add_def process_good)
qed

lemma find_handle:
  "find (\<lambda>t. handle t = h) ts = Some t \<Longrightarrow> t \<in> set ts \<and> handle t = h"
  by (induction ts) (auto split: if_splits)

lemma mset_map_remove1:
  "t \<in> set ts \<Longrightarrow> mset (map f (remove1 t ts)) + {#f t#} = mset (map f ts)"
  by (induction ts) auto

lemma length_remove1_in: "t \<in> set ts \<Longrightarrow> length (remove1 t ts) + 1 = length ts"
  by (induction ts) auto

lemma mset_move:
  fixes A B B' C M :: "'b multiset"
  assumes "B' + {#x#} = B" and "A + B + C = M"
  shows "A + B' + (C + {#x#}) = M"
proof -
  have "A + B' + (C + {#x#}) = A + (B' + {#x#}) + C"
    by (simp add: ac_simps)
  with assms show ?thesis by simp
qed

lemma settle_good:
  assumes c: "consistent q" and i: "idle q"
  shows "consistent (settle h q) \<and> idle (settle h q)"
proof (cases "find (\<lambda>t. handle t = h) (executing q)")
  case None
  with assms show ?thesis by (simp add: settle_def)
next
  case (Some t)
  from find_handle[OF Some] have t: "t \<in> set (executing q)" "handle t = h" by auto
  let ?q1 = "q\<lparr>executing := remove1 t (executing q), finishing := finishing q @ [h],
               settled := settled q @ [(h, outcome t)]\<rparr>"
  have s: "settle h q = ?q1" by (simp add: settle_def Some)
  note len = length_remove1_in[OF t(1)]
  note ms = mset_map_remove1[OF t(1), of handle]
  have o: "outcome t = submitted q ! h"
    using c t by (auto simp: consistent_def)
  have sub: "set (remove1 t (executing q)) \<subseteq> set (executing q)"
    by (rule set_remove1_subset)
  from c have cm: "mset (map handle (queue q)) + mset (map handle (executing q))
                     + mset (map fst (settled q)) = mset [0..<length (submitted q)]"
    and co: "\<forall>t \<in> set (queue q) \<union> set (executing q). outcome t = submitted q ! handle t"
    and cs: "\<forall>(h, r) \<in> set (settled q). r = submitted q ! h"
    and cc: "currentRequests q = int (length (executing q) + length (finishing q))"
    and cb: "currentRequests q \<le> 5" and cx: "maxConcurrent q = 5"
    by (simp_all add: consistent_def)
  have m1: "mset (map fst (settled q @ [(h, outcome t)])) = mset (map fst (settled q)) + {#handle t#}"
    using t(2) by simp
  have m2: "mset (map handle (queue q)) + mset (map handle (remove1 t (executing q)))
              + mset (map fst (settled q @ [(h, outcome t)]))
            = mset [0..<length (submitted q)]"
    unfolding m1 by (rule mset_move[OF ms cm])
  have "consistent ?q1"
    unfolding consistent_def
  proof (intro conjI)
    show "maxConcurrent ?q1 = 5" using cx by simp
    show "currentRequests ?q1 = int (length (executing ?q1) + length (finishing ?q1))"
      using cc len by simp
    show "currentRequests ?q1 \<le> 5" using cb by simp
    show "mset (map handle (queue ?q1)) + mset (map handle (executing ?q1))
            + mset (map fst (settled ?q1)) = mset [0..<length (submitted ?q1)]"
      using m2 by simp
    show "\<forall>t \<in> set (queue ?q1) \<union> set (executing ?q1). outcome t = submitted ?q1 ! handle t"
      using co sub by auto
    show "\<forall>(h, r) \<in> set (settled ?q1). r = submitted ?q1 ! h"
      using cs o by auto
  qed
  moreover have "idle ?q1" using i by (simp add: idle_def)
  ultimately show ?thesis by (simp add: s)
qed

lemma on_finally_good:
  assumes c: "consistent q" and i: "idle q"
  shows "consistent (on_finally h q) \<and> idle (on_finally h q)"
proof (cases "h \<in> set (finishing q)")
  case False
  with assms show ?thesis by (simp add: on_finally_def)
next
  case True
  let ?q1 = "q\<lparr>finishing := remove1 h (finishing q),
               currentRequests := currentRequests q - 1\<rparr>"
  note len = length_remove1_in[OF True]
  have "consistent ?q1"
    using c len by (auto simp: consistent_def)
  moreover have "\<not> processing ?q1" using i by (simp add: idle_def)
  ultimately show ?thesis using True by (simp add: on_finally_def process_good)
qed

lemma step_good: "consistent q \<Longrightarrow> idle q \<Longrightarrow> consistent (step e q) \<and> idle (step e q)"
  by (cases e) (simp_all add: add_good settle_good on_finally_good)

lemma fold_step_good:
  "consistent q \<Longrightarrow> idle q \<Longrightarrow> consistent (fold step es q) \<and> idle (fold step es q)"
proof (induction es arbitrary: q)
  case Nil
  then show ?case by simp
next
  case (Cons e es)
  from step_good[OF Cons.prems] Cons.IH show ?case by simp
qed

lemma new_good: "consistent new_RequestQueue \<and> idle new_RequestQueue"
  by (simp add: consistent_def idle_def new_RequestQueue_def)

lemma run_good: "consistent (run es) \<and> idle (run es)"
  unfolding run_def using new_good fold_step_good by blast

text \<open>No event but \<open>add\<close> changes what was submitted.\<close>

lemma process_loop_submitted: "submitted (process_loop q) = submitted q"
proof (induction q rule: process_loop.induct)
  case (1 q)
  show ?case
  proof (cases q rule: process_loop_cases)
    case stop
    then show ?thesis by simp
  next
    case (go t ts)
    with 1 show ?thesis by simp
  qed
qed

lemma process_submitted: "submitted (process q) = submitted q"
  by (simp add: process_def process_loop_submitted)

lemma settle_submitted: "submitted (settle h q) = submitted q"
  by (simp add: settle_def split: option.splits)

lemma on_finally_submitted: "submitted (on_finally h q) = submitted q"
  by (simp add: on_finally_def process_submitted)

lemma drain_good:
  "consistent q \<Longrightarrow> idle q \<Longrightarrow>
   consistent (drain q) \<and> idle (drain q) \<and> executing (drain q) = [] \<and> finishing (drain q) = []
   \<and> submitted (drain q) = submitted q"
proof (induction q rule: drain.induct)
  case (1 q)
  show ?case
  proof (cases "executing q")
    case (Cons t ts)
    then have d: "drain q = drain (settle (handle t) q)"
      by (subst drain.simps) simp
    from "1.IH"(2)[OF Cons] settle_good[OF "1.prems"] show ?thesis
      by (simp add: d settle_submitted)
  next
    case Nil
    show ?thesis
    proof (cases "finishing q")
      case (Cons h hs)
      with Nil have d: "drain q = drain (on_finally h q)"
        by (subst drain.simps) simp
      from "1.IH"(1)[OF Nil Cons] on_finally_good[OF "1.prems"] show ?thesis
        by (simp add: d on_finally_submitted)
    next
      case Nil2: Nil
      with Nil have "drain q = q" by (subst drain.simps) simp
      with "1.prems" Nil Nil2 show ?thesis by simp
    qed
  qed
qed

lemma quiescent_all_settled:
  assumes c: "consistent q" and i: "idle q"
      and e: "executing q = []" and f: "finishing q = []"
  shows "queue q = []" and "mset (map fst (settled q)) = mset [0..<length (submitted q)]"
proof -
  from c e f have "currentRequests q = 0" "maxConcurrent q = 5"
    by (simp_all add: consistent_def)
  with i show q: "queue q = []" by (simp add: idle_def)
  with c e show "mset (map fst (settled q)) = mset [0..<length (submitted q)]"
    by (simp add: consistent_def)
qed

lemma consistent_outcomes:
  assumes "consistent q"
  shows "map snd (settled q) = map ((!) (submitted q)) (map fst (settled q))"
  using assms by (auto simp: consistent_def)

lemma consistent_distinct:
  assumes "consistent q"
  shows "distinct (map handle (queue q) @ map handle (executing q) @ map fst (settled q))"
proof -
  from assms
  have "mset (map handle (queue q) @ map handle (executing q) @ map fst (settled q))
          = mset [0..<length (submitted q)]"
    by (simp add: consistent_def ac_simps)
  from mset_eq_imp_distinct_iff[OF this] show ?thesis by simp
qed

lemma process_loop_settled: "settled (process_loop q) = settled q"
proof (induction q rule: process_loop.induct)
  case (1 q)
  show ?case
  proof (cases q rule: process_loop_cases)
    case stop
    then show ?thesis by simp
  next
    case (go t ts)
    with 1 show ?thesis by simp
  qed
qed

lemma step_settled: "take (length (settled q)) (settled (step e q)) = settled q"
  by (cases e)
     (simp_all add: add_def settle_def on_finally_def process_def process_loop_settled
        split: option.splits)

lemma step_settled_length: "length (settled q) \<le> length (settled (step e q))"
  by (cases e)
     (simp_all add: add_def settle_def on_finally_def process_def process_loop_settled
        split: option.splits)

lemma fold_step_settled:
  "take (length (settled q)) (settled (fold step es q)) = settled q
   \<and> length (settled q) \<le> length (settled (fold step es q))"
proof (induction es arbitrary: q)
  case Nil
  then show ?case by simp
next
  case (Cons e es)
  let ?n = "length (settled q)" and ?m = "length (settled (step e q))"
  let ?X = "settled (fold step es (step e q))"
  from Cons.IH[of "step e q"] have ih: "take ?m ?X = settled (step e q)" and le: "?m \<le> length ?X"
    by simp_all
  note nm = step_settled_length[of q e]
  have "take ?n ?X = take ?n (take ?m ?X)"
    using nm by (simp add: min_def)
  also have "\<dots> = settled q"
    unfolding ih by (rule step_settled)
  finally have "take ?n ?X = settled q" .
  moreover from nm le have "?n \<le> length ?X" by simp
  ultimately show ?case by simp
qed

lemma run_append: "run (es @ later) = fold step later (run es)"
  by (simp add: run_def)

text \<open>Every completion that happens brings the queue nearer to rest.\<close>

lemma process_loop_in_flight: "in_flight (process_loop q) \<le> in_flight q"
proof (induction q rule: process_loop.induct)
  case (1 q)
  show ?case
  proof (cases q rule: process_loop_cases)
    case stop
    then show ?thesis by simp
  next
    case (go t ts)
    have "in_flight (q\<lparr>queue := ts, currentRequests := currentRequests q + 1,
             executing := executing q @ [t]\<rparr>) \<le> in_flight q"
      using go(1) by (simp add: in_flight_def)
    with 1 go show ?thesis by simp
  qed
qed

lemma process_in_flight: "in_flight (process q) \<le> in_flight q"
  using process_loop_in_flight[of "q\<lparr>processing := True\<rparr>"]
  by (simp add: process_def in_flight_def)

lemma settle_progress: "settle h q = q \<or> in_flight (settle h q) < in_flight q"
proof (cases "find (\<lambda>t. handle t = h) (executing q)")
  case None
  then show ?thesis by (simp add: settle_def)
next
  case (Some t)
  from find_handle[OF Some] have "t \<in> set (executing q)" by simp
  from length_remove1_in[OF this] show ?thesis
    by (simp add: settle_def Some in_flight_def)
qed

lemma on_finally_progress: "on_finally h q = q \<or> in_flight (on_finally h q) < in_flight q"
proof (cases "h \<in> set (finishing q)")
  case False
  then show ?thesis by (simp add: on_finally_def)
next
  case True
  let ?q1 = "q\<lparr>finishing := remove1 h (finishing q),
               currentRequests := currentRequests q - 1\<rparr>"
  from length_remove1_in[OF True] have "in_flight ?q1 < in_flight q"
    by (simp add: in_flight_def)
  with process_in_flight[of ?q1] True show ?thesis
    by (simp add: on_finally_def)
qed

lemma waiting_means_busy:
  assumes "consistent q" and "idle q"
  shows "in_flight q = 0 \<or> executing q \<noteq> [] \<or> finishing q \<noteq> []"
proof (cases "queue q = []")
  case True
  then show ?thesis by (auto simp: in_flight_def)
next
  case False
  with assms have "currentRequests q = 5"
    by (auto simp: idle_def consistent_def)
  with assms(1) have "length (executing q) + length (finishing q) = 5"
    by (simp add: consistent_def)
  then show ?thesis by auto
qed

lemma add_submitted: "submitted (add request q) = submitted q @ [request]"
  by (simp add: add_def process_submitted)

lemma step_submitted: "submitted (step e q) = submitted q @ added [e]"
  by (cases e) (simp_all add: add_submitted settle_submitted on_finally_submitted)

lemma added_Cons: "added (e # es) = added [e] @ added es"
  by (cases e) simp_all

lemma fold_step_submitted: "submitted (fold step es q) = submitted q @ added es"
proof (induction es arbitrary: q)
  case Nil
  show ?case by simp
next
  case (Cons e es)
  have "submitted (fold step (e # es) q) = submitted (step e q) @ added es"
    using Cons by simp
  also have "\<dots> = submitted q @ added [e] @ added es"
    by (simp add: step_submitted)
  finally show ?case
    using added_Cons[of e es] by simp
qed

lemma run_submitted: "submitted (run es) = added es"
  by (simp add: run_def fold_step_submitted new_RequestQueue_def)

lemma process_loop_tasks:
  "set (queue (process_loop q)) \<union> set (executing (process_loop q))
     = set (queue q) \<union> set (executing q)"
proof (induction q rule: process_loop.induct)
  case (1 q)
  show ?case
  proof (cases q rule: process_loop_cases)
    case stop
    then show ?thesis by simp
  next
    case (go t ts)
    with 1 show ?thesis by auto
  qed
qed

lemma process_tasks:
  "set (queue (process q)) \<union> set (executing (process q)) = set (queue q) \<union> set (executing q)"
  using process_loop_tasks[of "q\<lparr>processing := True\<rparr>"] by (simp add: process_def)

lemma add_task:
  "\<lparr>handle = length (submitted q), outcome = request\<rparr>
     \<in> set (queue (add request q)) \<union> set (executing (add request q))"
  unfolding add_def process_tasks by simp

lemma settled_once:
  assumes m: "mset (map fst S) = mset [0..<n]"
      and o: "map snd S = map ((!) xs) (map fst S)" and i: "i < n"
  shows "(i, xs ! i) \<in> set S" and "length (filter (\<lambda>p. fst p = i) S) = 1"
proof -
  from m i have "i \<in> set (map fst S)"
    by (metis atLeastLessThan_iff set_mset_mset set_upt zero_le)
  then obtain r where r: "(i, r) \<in> set S" by auto
  then obtain k where k: "k < length S" "S ! k = (i, r)"
    by (auto simp: in_set_conv_nth)
  from o k have "snd (S ! k) = xs ! fst (S ! k)"
    by (metis length_map nth_map)
  with k r show "(i, xs ! i) \<in> set S" by simp
  have "length (filter (\<lambda>p. fst p = i) S) = count (mset (map fst S)) i"
    by (induction S) auto
  also from m i have "\<dots> = 1"
    by (simp add: count_mset)
  finally show "length (filter (\<lambda>p. fst p = i) S) = 1" .
qed

text \<open>
  C3. Take any sequence of events: calls of \<open>add\<close>, interleaved in any way with the
  settling of started tasks and with their \<open>finally\<close> callbacks. What the queue records
  as submitted is exactly the tasks passed to the calls of \<open>add\<close>, in their order, and
  the task of a further call of \<open>add\<close> is waiting or executing right after the call,
  under the next handle. After the events, at most 5
  tasks are executing; the counter is the number of tasks that were started and whose
  callback has not run, and is at most 5; no task waits while a slot is free; every
  handle submitted so far belongs to exactly one task that is waiting, executing or
  settled, so no handle has settled twice; every settled handle has the outcome of its
  own task; and whatever happens later, the handles settled so far stay settled as
  they are. Every settling of a task and every callback that happens decreases what is
  still to happen (\<open>in_flight\<close>); as long as something is still to happen, a task is
  executing or a callback is due, so the queue cannot be stuck with tasks waiting; and
  whenever no task is executing and no callback is due, no task waits and every handle
  submitted has settled exactly once. In particular, when the environment lets
  everything that was started come to its end (\<open>drain\<close>, which terminates), no task is
  left waiting, executing or finishing, and the handle of every call of \<open>add\<close> among
  the events has settled exactly once, with the outcome of the task passed to that
  call: resolved with its result or rejected with what it threw.
\<close>

theorem requestQueue_bounded_and_settles:
  "submitted (run events) = added events
   \<and> (\<lparr>handle = length (added events), outcome = request\<rparr>
        \<in> set (queue (run (events @ [Add request])))
          \<union> set (executing (run (events @ [Add request]))))
   \<and> length (executing (run events)) \<le> 5
   \<and> currentRequests (run events)
       = int (length (executing (run events)) + length (finishing (run events)))
   \<and> currentRequests (run events) \<le> 5
   \<and> (queue (run events) = [] \<or> currentRequests (run events) = 5)
   \<and> mset (map handle (queue (run events)) @ map handle (executing (run events))
            @ map fst (settled (run events)))
       = mset [0..<length (submitted (run events))]
   \<and> distinct (map handle (queue (run events)) @ map handle (executing (run events))
            @ map fst (settled (run events)))
   \<and> map snd (settled (run events))
       = map ((!) (submitted (run events))) (map fst (settled (run events)))
   \<and> take (length (settled (run events))) (settled (run (events @ later)))
       = settled (run events)
   \<and> (settle h (run events) = run events
      \<or> in_flight (settle h (run events)) < in_flight (run events))
   \<and> (on_finally h (run events) = run events
      \<or> in_flight (on_finally h (run events)) < in_flight (run events))
   \<and> (in_flight (run events) = 0
      \<or> executing (run events) \<noteq> [] \<or> finishing (run events) \<noteq> [])
   \<and> (executing (run events) = [] \<and> finishing (run events) = []
      \<longrightarrow> queue (run events) = []
        \<and> mset (map fst (settled (run events))) = mset [0..<length (submitted (run events))])
   \<and> queue (drain (run events)) = [] \<and> executing (drain (run events)) = []
   \<and> finishing (drain (run events)) = []
   \<and> submitted (drain (run events)) = submitted (run events)
   \<and> mset (map fst (settled (drain (run events))))
       = mset [0..<length (submitted (run events))]
   \<and> distinct (map fst (settled (drain (run events))))
   \<and> map snd (settled (drain (run events)))
       = map ((!) (submitted (run events))) (map fst (settled (drain (run events))))
   \<and> mset (map fst (settled (drain (run events)))) = mset [0..<length (added events)]
   \<and> map snd (settled (drain (run events)))
       = map ((!) (added events)) (map fst (settled (drain (run events))))
   \<and> (i < length (added events)
      \<longrightarrow> (i, added events ! i) \<in> set (settled (drain (run events)))
        \<and> length (filter (\<lambda>p. fst p = i) (settled (drain (run events)))) = 1)"
proof -
  let ?q = "run events"
  from run_good[of events] have c: "consistent ?q" and i: "idle ?q" by simp_all
  from drain_good[OF c i] have dc: "consistent (drain ?q)" and di: "idle (drain ?q)"
    and de: "executing (drain ?q) = []" and df: "finishing (drain ?q) = []"
    and ds: "submitted (drain ?q) = submitted ?q"
    by simp_all
  from c have cnt: "currentRequests ?q = int (length (executing ?q) + length (finishing ?q))"
    and bnd: "currentRequests ?q \<le> 5" and mx: "maxConcurrent ?q = 5"
    by (simp_all add: consistent_def)
  from cnt bnd have ex: "length (executing ?q) \<le> 5" by simp
  from i mx bnd have work: "queue ?q = [] \<or> currentRequests ?q = 5"
    by (auto simp: idle_def)
  from c have ms: "mset (map handle (queue ?q) @ map handle (executing ?q)
                     @ map fst (settled ?q)) = mset [0..<length (submitted ?q)]"
    by (simp add: consistent_def ac_simps)
  note dist = consistent_distinct[OF c]
  note out = consistent_outcomes[OF c]
  from fold_step_settled[of ?q later]
  have mono: "take (length (settled ?q)) (settled (run (events @ later))) = settled ?q"
    by (simp add: run_append)
  note q = quiescent_all_settled[OF dc di de df]
  from q(2) have all: "mset (map fst (settled (drain ?q))) = mset [0..<length (submitted ?q)]"
    by (simp add: ds)
  from consistent_distinct[OF dc] have ddist: "distinct (map fst (settled (drain ?q)))"
    by simp
  from consistent_outcomes[OF dc]
  have dout: "map snd (settled (drain ?q))
               = map ((!) (submitted ?q)) (map fst (settled (drain ?q)))"
    by (simp add: ds)
  note p1 = settle_progress[of h ?q] and p2 = on_finally_progress[of h ?q]
    and p3 = waiting_means_busy[OF c i]
  have rest: "queue ?q = []
              \<and> mset (map fst (settled ?q)) = mset [0..<length (submitted ?q)]"
    if "executing ?q = [] \<and> finishing ?q = []"
    using quiescent_all_settled[OF c i] that by simp
  from ex cnt bnd work ms dist out mono p1 p2 p3 rest q(1) de df ds all ddist dout
  have old: "length (executing (run events)) \<le> 5
     \<and> currentRequests (run events)
         = int (length (executing (run events)) + length (finishing (run events)))
     \<and> currentRequests (run events) \<le> 5
     \<and> (queue (run events) = [] \<or> currentRequests (run events) = 5)
     \<and> mset (map handle (queue (run events)) @ map handle (executing (run events))
              @ map fst (settled (run events)))
         = mset [0..<length (submitted (run events))]
     \<and> distinct (map handle (queue (run events)) @ map handle (executing (run events))
              @ map fst (settled (run events)))
     \<and> map snd (settled (run events))
         = map ((!) (submitted (run events))) (map fst (settled (run events)))
     \<and> take (length (settled (run events))) (settled (run (events @ later)))
         = settled (run events)
     \<and> (settle h (run events) = run events
        \<or> in_flight (settle h (run events)) < in_flight (run events))
     \<and> (on_finally h (run events) = run events
        \<or> in_flight (on_finally h (run events)) < in_flight (run events))
     \<and> (in_flight (run events) = 0
        \<or> executing (run events) \<noteq> [] \<or> finishing (run events) \<noteq> [])
     \<and> (executing (run events) = [] \<and> finishing (run events) = []
        \<longrightarrow> queue (run events) = []
          \<and> mset (map fst (settled (run events))) = mset [0..<length (submitted (run events))])
     \<and> queue (drain (run events)) = [] \<and> executing (drain (run events)) = []
     \<and> finishing (drain (run events)) = []
     \<and> submitted (drain (run events)) = submitted (run events)
     \<and> mset (map fst (settled (drain (run events))))
         = mset [0..<length (submitted (run events))]
     \<and> distinct (map fst (settled (drain (run events))))
     \<and> map snd (settled (drain (run events)))
         = map ((!) (submitted (run events))) (map fst (settled (drain (run events))))"
    by blast
  note sub = run_submitted[of events]
  have new: "\<lparr>handle = length (added events), outcome = request\<rparr>
        \<in> set (queue (run (events @ [Add request])))
          \<union> set (executing (run (events @ [Add request])))"
    using add_task[of "run events" request] by (simp add: run_append sub)
  from all have all': "mset (map fst (settled (drain ?q))) = mset [0..<length (added events)]"
    by (simp add: sub)
  from dout have dout': "map snd (settled (drain ?q))
               = map ((!) (added events)) (map fst (settled (drain ?q)))"
    by (simp add: sub)
  have each: "i < length (added events)
      \<longrightarrow> (i, added events ! i) \<in> set (settled (drain (run events)))
        \<and> length (filter (\<lambda>p. fst p = i) (settled (drain (run events)))) = 1"
    using settled_once[OF all' dout'] by blast
  from sub new old all' dout' each show ?thesis
    by (intro conjI) blast+
qed

lemma run_seven:
  "map handle (executing (run seven_requests)) = [0, 1, 2, 3, 4]
   \<and> map handle (queue (run seven_requests)) = [5, 6]
   \<and> currentRequests (run seven_requests) = 5
   \<and> settled (run seven_requests) = []"
  by code_simp

lemma drain_seven:
  "settled (drain (run seven_requests))
     = [(0, Inr 10), (1, Inr 11), (2, Inl OtherValue), (3, Inr 13), (4, Inr 14),
        (5, Inr 15), (6, Inr 16)]"
  by code_simp

lemma run_one:
  "executing (run one_request) = [] \<and> finishing (run one_request) = []
   \<and> queue (run one_request) = [] \<and> settled (run one_request) = [(0, Inr 10)]
   \<and> submitted (run one_request) = [Inr 10]"
  by code_simp

text \<open>
  The statement on seven requests in a row: five are started, two wait, and after
  draining all seven handles have settled, in the order of submission, the third one
  rejected with what its task threw; an eighth request waits under the handle 7; and on
  one request that has come to its end.
\<close>

theorem requestQueue_bounded_and_settles_witness:
  "added seven_requests
     = [Inr 10, Inr 11, Inl OtherValue, Inr 13, Inr 14, Inr 15, Inr 16]
   \<and> submitted (run seven_requests) = added seven_requests
   \<and> length (executing (run seven_requests)) = 5
   \<and> length (queue (run seven_requests)) = 2
   \<and> executing (run seven_requests) \<noteq> []
   \<and> map fst (settled (drain (run seven_requests))) = [0, 1, 2, 3, 4, 5, 6]
   \<and> map snd (settled (drain (run seven_requests)))
       = [Inr 10, Inr 11, Inl OtherValue, Inr 13, Inr 14, Inr 15, Inr 16]
   \<and> (2, Inl OtherValue) \<in> set (settled (drain (run seven_requests)))
   \<and> length (filter (\<lambda>p. fst p = 2) (settled (drain (run seven_requests)))) = 1
   \<and> \<lparr>handle = 7, outcome = Inr 17\<rparr>
        \<in> set (queue (run (seven_requests @ [Add (Inr 17)])))
          \<union> set (executing (run (seven_requests @ [Add (Inr 17)])))
   \<and> queue (drain (run seven_requests)) = []
   \<and> executing (run one_request) = [] \<and> finishing (run one_request) = []
   \<and> queue (run one_request) = []
   \<and> mset (map fst (settled (run one_request))) = mset [0..<length (submitted (run one_request))]"
proof -
  have ad: "added seven_requests
              = [Inr 10, Inr 11, Inl OtherValue, Inr 13, Inr 14, Inr 15, Inr 16]"
    by (simp add: seven_requests_def)
  from run_seven have a: "length (map handle (executing (run seven_requests))) = 5"
    "length (map handle (queue (run seven_requests))) = 2"
    by simp_all
  then have b: "executing (run seven_requests) \<noteq> []"
    by auto
  from run_one have o: "executing (run one_request) = []" "finishing (run one_request) = []"
    by simp_all
  from requestQueue_bounded_and_settles[where events = one_request and h = 0 and later = "[]"
         and i = 0 and request = "Inr 17"] o
  have r: "queue (run one_request) = []
           \<and> mset (map fst (settled (run one_request)))
               = mset [0..<length (submitted (run one_request))]"
    by blast
  note seven = requestQueue_bounded_and_settles[where events = seven_requests and h = 0
         and later = "[]" and i = 2 and request = "Inr 17"]
  from ad have len: "length (added seven_requests) = 7" "added seven_requests ! 2 = Inl OtherValue"
    by simp_all
  have s: "submitted (run seven_requests) = added seven_requests"
    by (rule seven[THEN conjunct1])
  have n: "\<lparr>handle = 7, outcome = Inr 17\<rparr>
        \<in> set (queue (run (seven_requests @ [Add (Inr 17)])))
          \<union> set (executing (run (seven_requests @ [Add (Inr 17)])))"
    using seven[THEN conjunct2, THEN conjunct1] by (simp only: len)
  from seven have "2 < length (added seven_requests)
      \<longrightarrow> (2, added seven_requests ! 2) \<in> set (settled (drain (run seven_requests)))
        \<and> length (filter (\<lambda>p. fst p = 2) (settled (drain (run seven_requests)))) = 1"
    by blast
  with len have e: "(2, Inl OtherValue) \<in> set (settled (drain (run seven_requests)))
        \<and> length (filter (\<lambda>p. fst p = 2) (settled (drain (run seven_requests)))) = 1"
    by simp
  from seven have d: "queue (drain (run seven_requests)) = []"
    by blast
  from a have a': "length (executing (run seven_requests)) = 5"
    "length (queue (run seven_requests)) = 2"
    by simp_all
  from drain_seven have ds: "map fst (settled (drain (run seven_requests))) = [0, 1, 2, 3, 4, 5, 6]"
    "map snd (settled (drain (run seven_requests)))
       = [Inr 10, Inr 11, Inl OtherValue, Inr 13, Inr 14, Inr 15, Inr 16]"
    by simp_all
  note parts = ad s a' b ds e[THEN conjunct1] e[THEN conjunct2] n d o r[THEN conjunct1]
    r[THEN conjunct2]
  show ?thesis
    by (intro conjI) (rule parts)+
qed

end
